theory Spec2Isabelle
  imports Complex_Main "HOL-Library.Multiset"
begin

section \<open>Data model\<close>

text \<open>
  A row of a per-asset table (\<open>bitcoin\<close>, \<open>ethereum\<close>), columns
  \<open>date TEXT PRIMARY KEY, price REAL, volume REAL, market_cap REAL\<close>, and equally a row of
  the data frame the analysis reads back from it.

  The date is the calendar day as a day number (days since 1970-01-01); the text
  \<open>YYYY-MM-DD\<close> that the collector writes is one-to-one with it and sorts the same way.
  A numeric column is \<open>real option\<close>: \<open>None\<close> is SQL \<open>NULL\<close> in the table and \<open>NaN\<close> in the
  data frame. Numbers are exact reals: rounding of floating point is not modelled.
\<close>

record row =
  date :: int
  price :: "real option"
  volume :: "real option"
  market_cap :: "real option"

text \<open>A table keeps its rows in rowid order, which is the order \<open>SELECT *\<close> scans them in.\<close>

type_synonym table = "row list"

text \<open>
  One series of the API's answer is a list of \<open>[timestamp_ms, value]\<close> pairs, and the decoded
  JSON body is a dictionary from \<open>prices\<close>, \<open>total_volumes\<close>, \<open>market_caps\<close> to series.
\<close>

type_synonym series = "(int \<times> real option) list"
type_synonym json = "(string \<times> series) list"

text \<open>
  What one pass through \<open>requests.get\<close>, \<open>raise_for_status\<close> and \<open>response.json\<close> gives:
  a decoded body, an \<open>HTTPError\<close> carrying the status code, or another
  \<open>RequestException\<close> (connection failure, timeout, undecodable body).
\<close>

datatype response = Body json | HttpStatus nat | ConnectionFailure

datatype error =
    HTTPError nat
  | RequestException
  | KeyError string
  | SqliteError
  | IndexError
  | ValueError
  | UnboundLocalError
  | DatabaseError
  | DataQualityError

text \<open>
  \<open>DatabaseError\<close> is what \<open>pandas.read_sql_query\<close> raises for a failed query.
  \<open>DataQualityError\<close> is the specification's error for insufficient data: the source has
  no such exception, and no function below returns it.
\<close>

datatype level = INFO | WARNING | ERROR

text \<open>
  The state both scripts act on: the tables of \<open>data/crypto_data.db\<close> (table name to rows),
  whether the database file can be opened, the offset of local time from UTC in seconds
  (\<open>datetime.fromtimestamp\<close> gives local time), the log lines written, the coin of every
  HTTP request sent (in order), and the seconds spent in \<open>time.sleep\<close>.
\<close>

record world =
  tables :: "string \<rightharpoonup> table"
  connectable :: bool
  utc_offset :: int
  log_lines :: "(level \<times> string) list"
  requests_made :: "string list"
  slept :: nat

definition logger :: "level \<Rightarrow> string \<Rightarrow> world \<Rightarrow> world" where
  "logger lv msg w = w\<lparr>log_lines := log_lines w @ [(lv, msg)]\<rparr>"

definition sleep :: "nat \<Rightarrow> world \<Rightarrow> world" where
  "sleep secs w = w\<lparr>slept := slept w + secs\<rparr>"

section \<open>Collector: \<open>collect_data.py\<close>\<close>

subsection \<open>\<open>fetch_crypto_data\<close>\<close>

definition max_retries :: nat where
  "max_retries = 3"

definition retry_delay :: nat where
  "retry_delay = 5"

text \<open>
  The body of \<open>for attempt in range(max_retries)\<close>, over the attempts still to run. The remote
  API is a function from the coin, the window and the attempt number to what that request
  gives. Leaving the loop without a \<open>return\<close> or a \<open>raise\<close> reaches \<open>return None\<close>.
  A log message is the source's f-string up to the text of the exception, which is left out.
\<close>

fun fetch_attempts ::
  "(string \<Rightarrow> nat \<Rightarrow> nat \<Rightarrow> response) \<Rightarrow> string \<Rightarrow> nat \<Rightarrow> nat list \<Rightarrow> world
    \<Rightarrow> (error + json option) \<times> world" where
  "fetch_attempts remote coin_id days [] w = (Inr None, w)"
| "fetch_attempts remote coin_id days (attempt # rest) w =
     (let w1 = w\<lparr>requests_made := requests_made w @ [coin_id]\<rparr> in
      case remote coin_id days attempt of
        Body data \<Rightarrow>
          (Inr (Some data), logger INFO (''Successfully fetched data for '' @ coin_id) w1)
      | HttpStatus code \<Rightarrow>
          if code = 429 then
            fetch_attempts remote coin_id days rest
              (sleep retry_delay
                (logger WARNING
                  (''Rate limit exceeded for '' @ coin_id @ ''. Retrying in 5 seconds...'') w1))
          else
            (Inl (HTTPError code),
             logger ERROR (''HTTP error fetching data for '' @ coin_id) w1)
      | ConnectionFailure \<Rightarrow>
          (let w2 = logger ERROR (''Error fetching data for '' @ coin_id) w1 in
           if attempt = max_retries - 1 then (Inl RequestException, w2)
           else fetch_attempts remote coin_id days rest (sleep retry_delay w2)))"

definition fetch_crypto_data ::
  "(string \<Rightarrow> nat \<Rightarrow> nat \<Rightarrow> response) \<Rightarrow> string \<Rightarrow> nat \<Rightarrow> world
    \<Rightarrow> (error + json option) \<times> world" where
  "fetch_crypto_data remote coin_id days w =
     fetch_attempts remote coin_id days [0..<max_retries] w"

subsection \<open>\<open>store_data\<close>\<close>

text \<open>
  \<open>datetime.fromtimestamp(timestamp_ms / 1000).strftime('%Y-%m-%d')\<close>: the local calendar
  day of a timestamp in milliseconds.
\<close>

definition date_of_timestamp :: "int \<Rightarrow> int \<Rightarrow> int" where
  "date_of_timestamp offset timestamp_ms = (timestamp_ms div 1000 + offset) div 86400"

text \<open>\<open>data[k]\<close> on the decoded body: a missing key raises \<open>KeyError\<close>.\<close>

definition lookup :: "json \<Rightarrow> string \<Rightarrow> error + series" where
  "lookup data k = (case map_of data k of None \<Rightarrow> Inl (KeyError k) | Some v \<Rightarrow> Inr v)"

text \<open>\<open>zip(data['prices'], data['total_volumes'], data['market_caps'])\<close>, cut at the shortest.\<close>

definition zipped ::
  "json \<Rightarrow> error + ((int \<times> real option) \<times> (int \<times> real option) \<times> (int \<times> real option)) list" where
  "zipped data =
     (case lookup data ''prices'' of
        Inl e \<Rightarrow> Inl e
      | Inr prices \<Rightarrow>
     (case lookup data ''total_volumes'' of
        Inl e \<Rightarrow> Inl e
      | Inr total_volumes \<Rightarrow>
     (case lookup data ''market_caps'' of
        Inl e \<Rightarrow> Inl e
      | Inr market_caps \<Rightarrow> Inr (zip prices (zip total_volumes market_caps)))))"

text \<open>
  The tuple \<open>(date, value, volume[1], market_cap[1])\<close> bound to the statement: the date and
  the price come from the entry of \<open>prices\<close>, the other two from their own series.
\<close>

fun to_row ::
  "int \<Rightarrow> (int \<times> real option) \<times> (int \<times> real option) \<times> (int \<times> real option) \<Rightarrow> row" where
  "to_row offset ((timestamp_ms, val), (tv, vol), (tm, cap)) =
     \<lparr>date = date_of_timestamp offset timestamp_ms, price = val, volume = vol,
      market_cap = cap\<rparr>"

text \<open>
  \<open>INSERT OR REPLACE\<close> on the primary key \<open>date\<close>: a row with the same date is deleted,
  and the new row is added with a fresh rowid, so it comes last in scan order.
\<close>

definition insert_or_replace :: "table \<Rightarrow> row \<Rightarrow> table" where
  "insert_or_replace tbl r = filter (\<lambda>x. date x \<noteq> date r) tbl @ [r]"

text \<open>
  The three lookups are evaluated before the loop, so a missing key raises before anything
  is written. A statement against a table that does not exist raises \<open>sqlite3.Error\<close>, which
  the function logs and re-raises; with no entry to write no statement is run.
\<close>

definition store_data :: "string \<Rightarrow> json \<Rightarrow> world \<Rightarrow> (error + unit) \<times> world" where
  "store_data coin_id data w =
     (case zipped data of
        Inl e \<Rightarrow> (Inl e, w)
      | Inr entries \<Rightarrow>
          if entries = [] then
            (Inr (), logger INFO (''Data stored successfully for '' @ coin_id) w)
          else
            (case tables w coin_id of
               None \<Rightarrow> (Inl SqliteError, logger ERROR (''Error storing data for '' @ coin_id) w)
             | Some tbl \<Rightarrow>
                 (Inr (),
                  logger INFO (''Data stored successfully for '' @ coin_id)
                    (w\<lparr>tables := (tables w)(coin_id \<mapsto>
                         foldl insert_or_replace tbl (map (to_row (utc_offset w)) entries))\<rparr>))))"

subsection \<open>\<open>create_database\<close> and \<open>main\<close>\<close>

definition create_table_if_not_exists :: "string \<Rightarrow> (string \<rightharpoonup> table) \<Rightarrow> (string \<rightharpoonup> table)" where
  "create_table_if_not_exists name ts = (case ts name of None \<Rightarrow> ts(name \<mapsto> []) | Some t \<Rightarrow> ts)"

definition create_database :: "world \<Rightarrow> (error + unit) \<times> world" where
  "create_database w =
     (if connectable w then
        (Inr (),
         logger INFO ''Database and tables created successfully''
           (w\<lparr>tables := create_table_if_not_exists ''ethereum''
                            (create_table_if_not_exists ''bitcoin'' (tables w))\<rparr>))
      else (Inl SqliteError, logger ERROR ''Database error'' w))"

text \<open>
  The body of \<open>for coin in coins\<close>. Nothing inside the loop catches an exception: a raise of
  the fetch or of the store leaves the loop. \<open>if data\<close> is false for \<open>None\<close> and for an empty
  dictionary.
\<close>

fun process_coins ::
  "(string \<Rightarrow> nat \<Rightarrow> nat \<Rightarrow> response) \<Rightarrow> nat \<Rightarrow> string list \<Rightarrow> world \<Rightarrow> (error + unit) \<times> world" where
  "process_coins remote days [] w = (Inr (), w)"
| "process_coins remote days (coin # rest) w =
     (case fetch_crypto_data remote coin days (logger INFO (''Processing '' @ coin @ ''...'') w) of
        (Inl e, w1) \<Rightarrow> (Inl e, w1)
      | (Inr data, w1) \<Rightarrow>
          (case (case data of
                   None \<Rightarrow> (Inr (), logger ERROR (''No data received for '' @ coin) w1)
                 | Some d \<Rightarrow>
                     if d = [] then (Inr (), logger ERROR (''No data received for '' @ coin) w1)
                     else store_data coin d w1) of
             (Inl e, w2) \<Rightarrow> (Inl e, w2)
           | (Inr u, w2) \<Rightarrow> process_coins remote days rest (sleep 1 w2)))"

definition coins :: "string list" where
  "coins = [''bitcoin'', ''ethereum'']"

text \<open>
  \<open>main\<close>: an exception of the loop is logged and raised again, and \<open>finally\<close> closes the
  connection. When \<open>create_database\<close> itself raises, \<open>conn\<close> was never bound and
  \<open>conn.close()\<close> in \<open>finally\<close> raises \<open>UnboundLocalError\<close> in its place.
\<close>

definition main :: "(string \<Rightarrow> nat \<Rightarrow> nat \<Rightarrow> response) \<Rightarrow> world \<Rightarrow> (error + unit) \<times> world" where
  "main remote w =
     (case create_database w of
        (Inl e, w1) \<Rightarrow> (Inl UnboundLocalError, logger ERROR ''Error in main process'' w1)
      | (Inr u, w1) \<Rightarrow>
          (case process_coins remote 30 coins w1 of
             (Inl e, w2) \<Rightarrow>
               (Inl e,
                logger INFO ''Database connection closed''
                  (logger ERROR ''Error in main process'' w2))
           | (Inr u, w2) \<Rightarrow>
               (Inr (),
                logger INFO ''Database connection closed''
                  (logger INFO ''Data collection completed successfully'' w2))))"

section \<open>Analyzer: \<open>analyze_data.py\<close>\<close>

text \<open>
  The data frames are lists of rows in index order. The log lines of the analysis are left
  out: nothing below depends on them.
\<close>

subsection \<open>\<open>clean_data\<close>\<close>

text \<open>
  \<open>Series.interpolate(method='linear', limit_direction='both')\<close> on one numeric column.
  The method takes the rows as equally spaced, by position and not by date: a gap between
  two values is filled on the straight line between them, a gap before the first value
  takes the first value and a gap after the last value takes the last one. A column with
  no value at all is left as it is.
\<close>

fun first_valid :: "nat \<Rightarrow> real option list \<Rightarrow> (nat \<times> real) option" where
  "first_valid i [] = None"
| "first_valid i (Some v # xs) = Some (i, v)"
| "first_valid i (None # xs) = first_valid (Suc i) xs"

fun interpolate_from :: "(nat \<times> real) option \<Rightarrow> nat \<Rightarrow> real option list \<Rightarrow> real option list" where
  "interpolate_from prev i [] = []"
| "interpolate_from prev i (Some v # xs) = Some v # interpolate_from (Some (i, v)) (Suc i) xs"
| "interpolate_from prev i (None # xs) =
     (case (prev, first_valid (Suc i) xs) of
        (None, None) \<Rightarrow> None
      | (None, Some (k, b)) \<Rightarrow> Some b
      | (Some (j, a), None) \<Rightarrow> Some a
      | (Some (j, a), Some (k, b)) \<Rightarrow>
          Some (a + (b - a) / (real k - real j) * (real i - real j)))
     # interpolate_from prev (Suc i) xs"

definition interpolate_linear :: "real option list \<Rightarrow> real option list" where
  "interpolate_linear xs = interpolate_from None 0 xs"

text \<open>\<open>DataFrame.interpolate\<close>: every numeric column on its own; the dates are not touched.\<close>

definition interpolate :: "row list \<Rightarrow> row list" where
  "interpolate df =
     map (\<lambda>(r, p, v, m). r\<lparr>price := p, volume := v, market_cap := m\<rparr>)
       (zip df (zip (interpolate_linear (map price df))
                 (zip (interpolate_linear (map volume df))
                      (interpolate_linear (map market_cap df)))))"

text \<open>\<open>df.isnull().any().any()\<close>; a date is never null here.\<close>

definition isnull_any :: "row list \<Rightarrow> bool" where
  "isnull_any df = (\<exists>r\<in>set df. price r = None \<or> volume r = None \<or> market_cap r = None)"

text \<open>The comparisons \<open>x <= 0\<close> and \<open>x > 0\<close> of a column entry: both false on \<open>NaN\<close>.\<close>

definition le0 :: "real option \<Rightarrow> bool" where
  "le0 x = (case x of None \<Rightarrow> False | Some v \<Rightarrow> v \<le> 0)"

definition gt0 :: "real option \<Rightarrow> bool" where
  "gt0 x = (case x of None \<Rightarrow> False | Some v \<Rightarrow> 0 < v)"

text \<open>
  \<open>clean_data\<close>: interpolate when some value is missing, drop the rows that are not positive
  when some price or volume is not positive, then sort by date. The sort is modelled by a
  stable one; with one row per date the result of a sort is determined.
\<close>

definition clean_data :: "row list \<Rightarrow> row list" where
  "clean_data df =
     (let df1 = (if isnull_any df then interpolate df else df);
          df2 = (if (\<exists>r\<in>set df1. le0 (price r)) \<or> (\<exists>r\<in>set df1. le0 (volume r))
                 then filter (\<lambda>r. gt0 (price r) \<and> gt0 (volume r)) df1
                 else df1)
      in sort_key date df2)"

subsection \<open>\<open>analyze_data\<close>\<close>

text \<open>
  A floating point result is \<open>real option\<close>, with \<open>None\<close> for a result that is not a finite
  number (\<open>NaN\<close>, or an infinity from a division by zero, which numpy does not raise on).
\<close>

definition valid :: "real option list \<Rightarrow> real list" where
  "valid xs = List.map_filter (\<lambda>x. x) xs"

text \<open>\<open>Series.mean()\<close>: missing values are skipped; \<open>NaN\<close> when no value is left.\<close>

definition mean :: "real option list \<Rightarrow> real option" where
  "mean xs = (let vs = valid xs in
               if vs = [] then None else Some (sum_list vs / real (length vs)))"

text \<open>\<open>Series.std()\<close>: the sample standard deviation; \<open>NaN\<close> with fewer than two values.\<close>

definition std :: "real option list \<Rightarrow> real option" where
  "std xs = (let vs = valid xs; n = length vs in
              if n < 2 then None
              else (let m = sum_list vs / real n in
                    Some (sqrt (sum_list (map (\<lambda>v. (v - m)\<^sup>2) vs) / real (n - 1)))))"

definition fdiv :: "real option \<Rightarrow> real option \<Rightarrow> real option" where
  "fdiv a b = (case (a, b) of
                 (Some x, Some y) \<Rightarrow> if y = 0 then None else Some (x / y)
               | _ \<Rightarrow> None)"

definition fsub :: "real option \<Rightarrow> real option \<Rightarrow> real option" where
  "fsub a b = (case (a, b) of (Some x, Some y) \<Rightarrow> Some (x - y) | _ \<Rightarrow> None)"

definition fmul :: "real option \<Rightarrow> real \<Rightarrow> real option" where
  "fmul a c = (case a of Some x \<Rightarrow> Some (x * c) | None \<Rightarrow> None)"

text \<open>\<open>series.iloc[i]\<close>: a negative position counts from the end; out of range raises.\<close>

definition iloc :: "'a list \<Rightarrow> int \<Rightarrow> error + 'a" where
  "iloc xs i =
     (if 0 \<le> i \<and> i < int (length xs) then Inr (xs ! nat i)
      else if i < 0 \<and> - int (length xs) \<le> i then Inr (xs ! nat (int (length xs) + i))
      else Inl IndexError)"

text \<open>
  The dictionary built for one coin. Its key \<open>avg_volume\<close> is the field \<open>mean_volume\<close> here:
  the name \<open>avg_volume\<close> is the column of the weekday table below.
\<close>

record summary =
  mean_price :: "real option"
  volatility :: "real option"
  price_change_pct :: "real option"
  mean_volume :: "real option"

text \<open>
  The entries are evaluated in the order written: the mean and the volatility first (over an
  empty column both are \<open>NaN\<close>, with no exception), then \<open>iloc[-1]\<close> and \<open>iloc[0]\<close>.
\<close>

definition coin_metrics :: "row list \<Rightarrow> error + summary" where
  "coin_metrics df =
     (let ps = map price df;
          mp = mean ps;
          vol = fmul (fdiv (std ps) (mean ps)) 100
      in case iloc ps (- 1) of
           Inl e \<Rightarrow> Inl e
         | Inr l \<Rightarrow>
        (case iloc ps 0 of
           Inl e \<Rightarrow> Inl e
         | Inr f \<Rightarrow>
             Inr \<lparr>mean_price = mp, volatility = vol,
                  price_change_pct = fmul (fdiv (fsub l f) f) 100,
                  mean_volume = mean (map volume df)\<rparr>))"

text \<open>\<open>pd.merge(..., on='date')\<close>: the inner join on the date, in the order of the left frame.\<close>

definition merge_on_date :: "row list \<Rightarrow> row list \<Rightarrow> (real option \<times> real option) list" where
  "merge_on_date btc_df eth_df =
     concat (map (\<lambda>l. map (\<lambda>r. (price l, price r)) (filter (\<lambda>r. date r = date l) eth_df)) btc_df)"

text \<open>\<open>Series.corr\<close>: Pearson's coefficient over the pairs with both values present.\<close>

definition corr :: "(real option \<times> real option) list \<Rightarrow> real option" where
  "corr ps =
     (let vs = concat (map (\<lambda>(a, b). case (a, b) of (Some x, Some y) \<Rightarrow> [(x, y)] | _ \<Rightarrow> []) ps);
          n = length vs
      in if n < 2 then None
         else (let mx = sum_list (map fst vs) / real n;
                   my = sum_list (map snd vs) / real n;
                   sxy = sum_list (map (\<lambda>(x, y). (x - mx) * (y - my)) vs);
                   sxx = sum_list (map (\<lambda>(x, y). (x - mx)\<^sup>2) vs);
                   syy = sum_list (map (\<lambda>(x, y). (y - my)\<^sup>2) vs)
               in if sxx = 0 \<or> syy = 0 then None else Some (sxy / (sqrt sxx * sqrt syy))))"

text \<open>
  The weekday query. \<open>strftime('%w', date)\<close> is the day of the week with Sunday as 0; day
  number 0 (1970-01-01) was a Thursday. \<open>AVG\<close> leaves \<open>NULL\<close>s out and is \<open>NULL\<close> over none.
  One row per weekday number that has a row in the table, in the order of the number.
\<close>

definition strftime_w :: "int \<Rightarrow> nat" where
  "strftime_w d = nat ((d + 4) mod 7)"

definition day_name :: "nat \<Rightarrow> string" where
  "day_name n =
     (if n = 0 then ''Sunday'' else if n = 1 then ''Monday'' else if n = 2 then ''Tuesday''
      else if n = 3 then ''Wednesday'' else if n = 4 then ''Thursday''
      else if n = 5 then ''Friday'' else ''Saturday'')"

definition sql_avg :: "real option list \<Rightarrow> real option" where
  "sql_avg xs = (let vs = valid xs in
                  if vs = [] then None else Some (sum_list vs / real (length vs)))"

record weekday_row =
  weekday_num :: nat
  weekday :: string
  avg_price :: "real option"
  avg_volume :: "real option"

definition weekday_group :: "table \<Rightarrow> nat \<Rightarrow> weekday_row list" where
  "weekday_group tbl n =
     (let g = filter (\<lambda>r. strftime_w (date r) = n) tbl in
      if g = [] then []
      else [\<lparr>weekday_num = n, weekday = day_name n,
             avg_price = sql_avg (map price g), avg_volume = sql_avg (map volume g)\<rparr>])"

definition btc_weekday_avg :: "table \<Rightarrow> weekday_row list" where
  "btc_weekday_avg tbl = concat (map (weekday_group tbl) [0..<7])"

record analysis =
  Bitcoin :: summary
  Ethereum :: summary
  correlation :: "real option"
  btc_weekday_trends :: "weekday_row list"

text \<open>
  \<open>analyze_data\<close> takes the two cleaned frames and opens the database again for the weekday
  query, which reads the table \<open>bitcoin\<close>. The column \<open>weekday\<close> it adds to both frames is
  used by nothing in the analysis and is left out.
\<close>

definition analyze_data :: "(string \<rightharpoonup> table) \<Rightarrow> row list \<Rightarrow> row list \<Rightarrow> error + analysis" where
  "analyze_data db btc_df eth_df =
     (case coin_metrics btc_df of
        Inl e \<Rightarrow> Inl e
      | Inr b \<Rightarrow>
     (case coin_metrics eth_df of
        Inl e \<Rightarrow> Inl e
      | Inr t \<Rightarrow>
     (case db ''bitcoin'' of
        None \<Rightarrow> Inl DatabaseError
      | Some tbl \<Rightarrow>
          Inr \<lparr>Bitcoin = b, Ethereum = t,
               correlation = corr (merge_on_date btc_df eth_df),
               btc_weekday_trends = btc_weekday_avg tbl\<rparr>)))"

subsection \<open>The weekday lookup of \<open>generate_report\<close>\<close>

text \<open>
  \<open>Series.idxmax()\<close> and \<open>Series.idxmin()\<close>: one pass from the first row that keeps the best
  entry so far and replaces it only by a strictly better one; \<open>NaN\<close> entries are skipped.
  With no entry to choose from (an empty column, or \<open>NaN\<close> only) the lookup raises.
\<close>

fun arg_best ::
  "(real \<Rightarrow> real \<Rightarrow> bool) \<Rightarrow> nat \<Rightarrow> (nat \<times> real) option \<Rightarrow> real option list \<Rightarrow> (nat \<times> real) option" where
  "arg_best better i best [] = best"
| "arg_best better i best (None # xs) = arg_best better (Suc i) best xs"
| "arg_best better i best (Some v # xs) =
     arg_best better (Suc i)
       (case best of
          None \<Rightarrow> Some (i, v)
        | Some (j, b) \<Rightarrow> if better v b then Some (i, v) else Some (j, b))
       xs"

definition idxmax :: "real option list \<Rightarrow> error + nat" where
  "idxmax xs = (case arg_best (\<lambda>v b. b < v) 0 None xs of
                  None \<Rightarrow> Inl ValueError | Some (i, v) \<Rightarrow> Inr i)"

definition idxmin :: "real option list \<Rightarrow> error + nat" where
  "idxmin xs = (case arg_best (\<lambda>v b. v < b) 0 None xs of
                  None \<Rightarrow> Inl ValueError | Some (i, v) \<Rightarrow> Inr i)"

text \<open>
  \<open>trends.iloc[trends['avg_volume'].idxmax()]['weekday']\<close> and its \<open>idxmin\<close> twin: the names
  the report prints for the highest and the lowest volume.
\<close>

definition highest_volume_weekday :: "weekday_row list \<Rightarrow> error + string" where
  "highest_volume_weekday trends =
     (case idxmax (map avg_volume trends) of
        Inl e \<Rightarrow> Inl e
      | Inr i \<Rightarrow> (case iloc trends (int i) of Inl e \<Rightarrow> Inl e | Inr r \<Rightarrow> Inr (weekday r)))"

definition lowest_volume_weekday :: "weekday_row list \<Rightarrow> error + string" where
  "lowest_volume_weekday trends =
     (case idxmin (map avg_volume trends) of
        Inl e \<Rightarrow> Inl e
      | Inr i \<Rightarrow> (case iloc trends (int i) of Inl e \<Rightarrow> Inl e | Inr r \<Rightarrow> Inr (weekday r)))"

section \<open>Concrete inputs\<close>

text \<open>Remote APIs and a starting state for concrete runs.\<close>

definition always_rate_limited :: "string \<Rightarrow> nat \<Rightarrow> nat \<Rightarrow> response" where
  "always_rate_limited coin_id days attempt = HttpStatus 429"

definition always_server_error :: "string \<Rightarrow> nat \<Rightarrow> nat \<Rightarrow> response" where
  "always_server_error coin_id days attempt = HttpStatus 500"

definition always_unreachable :: "string \<Rightarrow> nat \<Rightarrow> nat \<Rightarrow> response" where
  "always_unreachable coin_id days attempt = ConnectionFailure"

definition world0 :: world where
  "world0 = \<lparr>tables = Map.empty, connectable = True, utc_offset = 0, log_lines = [],
             requests_made = [], slept = 0\<rparr>"

definition sample_body :: "int \<Rightarrow> real \<Rightarrow> json" where
  "sample_body timestamp_ms p =
     [(''prices'', [(timestamp_ms, Some p)]),
      (''total_volumes'', [(timestamp_ms, Some 5)]),
      (''market_caps'', [(timestamp_ms, Some 1000)])]"

definition bitcoin_down :: "string \<Rightarrow> nat \<Rightarrow> nat \<Rightarrow> response" where
  "bitcoin_down coin_id days attempt =
     (if coin_id = ''bitcoin'' then HttpStatus 500 else Body (sample_body 1700000000000 100))"

definition bitcoin_limited :: "string \<Rightarrow> nat \<Rightarrow> nat \<Rightarrow> response" where
  "bitcoin_limited coin_id days attempt =
     (if coin_id = ''bitcoin'' then HttpStatus 429 else Body (sample_body 1700000000000 100))"

definition bitcoin_malformed :: "string \<Rightarrow> nat \<Rightarrow> nat \<Rightarrow> response" where
  "bitcoin_malformed coin_id days attempt =
     (if coin_id = ''bitcoin'' then Body [(''status'', [])]
      else Body (sample_body 1700000000000 100))"

definition world1 :: world where
  "world1 = world0\<lparr>tables := [''bitcoin'' \<mapsto> [], ''ethereum'' \<mapsto> []]\<rparr>"

text \<open>The run up to the first asset's fetch, and what \<open>main\<close> does when that fetch raises.\<close>

definition started :: "world \<Rightarrow> world" where
  "started w = logger INFO ''Processing bitcoin...'' (snd (create_database w))"

definition obs :: "int \<Rightarrow> real option \<Rightarrow> real option \<Rightarrow> row" where
  "obs d p v = \<lparr>date = d, price = p, volume = v, market_cap = Some 1000\<rparr>"

text \<open>The frame after the first step of \<open>clean_data\<close>.\<close>

definition filled :: "row list \<Rightarrow> row list" where
  "filled df = (if isnull_any df then interpolate df else df)"

definition sample_frame :: "row list" where
  "sample_frame = [obs 3 (Some 30) (Some 5), obs 1 (Some 0) (Some 5), obs 2 None (Some 0),
                   obs 4 (Some 7) (Some 9)]"

definition in_date_order :: "row list" where
  "in_date_order = [obs 1 (Some 10) (Some 5), obs 2 None (Some 5), obs 3 (Some 30) (Some 5),
                    obs 4 (Some 50) (Some 5)]"

definition out_of_date_order :: "row list" where
  "out_of_date_order = [obs 1 (Some 10) (Some 5), obs 3 (Some 30) (Some 5), obs 2 None (Some 5),
                        obs 4 (Some 50) (Some 5)]"

definition complete_frame :: "row list" where
  "complete_frame = [obs 1 (Some 10) (Some 5), obs 2 (Some 0) (Some 5), obs 3 (Some 30) (Some 5)]"

definition complete_frame_shuffled :: "row list" where
  "complete_frame_shuffled = [obs 3 (Some 30) (Some 5), obs 2 (Some 0) (Some 5), obs 1 (Some 10) (Some 5)]"

definition week_table :: table where
  "week_table =
     [\<lparr>date = 19675, price = Some 100, volume = Some 5, market_cap = None\<rparr>,
      \<lparr>date = 19676, price = Some 101, volume = Some 9, market_cap = None\<rparr>,
      \<lparr>date = 19677, price = Some 102, volume = Some 5, market_cap = None\<rparr>,
      \<lparr>date = 19678, price = Some 103, volume = Some 4, market_cap = None\<rparr>,
      \<lparr>date = 19679, price = Some 104, volume = Some 9, market_cap = None\<rparr>,
      \<lparr>date = 19680, price = Some 105, volume = Some 4, market_cap = None\<rparr>,
      \<lparr>date = 19681, price = Some 106, volume = Some 5, market_cap = None\<rparr>]"

definition week_names :: "string list" where
  "week_names = [''Sunday'', ''Monday'', ''Tuesday'', ''Wednesday'', ''Thursday'', ''Friday'',
                 ''Saturday'']"

definition nonpositive_frame :: "row list" where
  "nonpositive_frame = [obs 1 (Some 0) (Some 5), obs 2 (Some (- 3)) (Some 5), obs 3 (Some 7) (Some 0)]"

definition stored_bitcoin :: table where
  "stored_bitcoin = [obs 0 (Some 10) (Some 5), obs 7 (Some (- 4)) (Some 6), obs 3 None (Some 0),
                     obs 4 (Some 20) (Some 8)]"

definition stored_db :: "string \<rightharpoonup> table" where
  "stored_db = [''bitcoin'' \<mapsto> stored_bitcoin, ''ethereum'' \<mapsto> complete_frame]"

section \<open>Properties of the collector's fetch\<close>

lemma range_max_retries: "[0..<max_retries] = [0, 1, 2]"
  by (simp add: max_retries_def upt_rec)

lemma last_attempt: "max_retries - Suc 0 = 2"
  by (simp add: max_retries_def)

text \<open>
  C1, as stated, fails: when every attempt is answered with HTTP 429 the fetch does not
  raise. It sends three requests and then leaves the loop, returning \<open>None\<close>.
\<close>

theorem fetch_rate_limited_no_raise:
  "fst (fetch_crypto_data always_rate_limited ''bitcoin'' 30 world0) = Inr None"
  by (simp add: fetch_crypto_data_def range_max_retries always_rate_limited_def Let_def)

text \<open>
  C1, amended: when each of the three attempts is answered with HTTP 429, the fetch sends
  exactly three requests for the coin, sleeps the fixed delay after each of them
  (15 seconds in all), and returns \<open>None\<close> without raising.
\<close>

theorem fetch_rate_limited_three_attempts:
  assumes "\<forall>k<max_retries. remote coin_id days k = HttpStatus 429"
  shows "fst (fetch_crypto_data remote coin_id days w) = Inr None
       \<and> requests_made (snd (fetch_crypto_data remote coin_id days w))
           = requests_made w @ [coin_id, coin_id, coin_id]
       \<and> slept (snd (fetch_crypto_data remote coin_id days w)) = slept w + 15"
proof -
  from assms have "remote coin_id days 0 = HttpStatus 429"
    "remote coin_id days 1 = HttpStatus 429" "remote coin_id days 2 = HttpStatus 429"
    by (simp_all add: max_retries_def)
  then show ?thesis
    by (simp add: fetch_crypto_data_def range_max_retries logger_def sleep_def retry_delay_def
        Let_def)
qed

theorem fetch_rate_limited_three_attempts_witness:
  "always_rate_limited ''bitcoin'' 30 0 = HttpStatus 429
   \<and> always_rate_limited ''bitcoin'' 30 1 = HttpStatus 429
   \<and> always_rate_limited ''bitcoin'' 30 2 = HttpStatus 429
   \<and> fst (fetch_crypto_data always_rate_limited ''bitcoin'' 30 world0) = Inr None
   \<and> requests_made (snd (fetch_crypto_data always_rate_limited ''bitcoin'' 30 world0))
       = [''bitcoin'', ''bitcoin'', ''bitcoin'']
   \<and> slept (snd (fetch_crypto_data always_rate_limited ''bitcoin'' 30 world0)) = 15"
proof -
  have h: "\<forall>k<max_retries. always_rate_limited ''bitcoin'' 30 k = HttpStatus 429"
    by (simp add: always_rate_limited_def)
  from fetch_rate_limited_three_attempts [of always_rate_limited "''bitcoin''" 30 world0] h
  show ?thesis
    by (simp add: world0_def always_rate_limited_def)
qed

text \<open>
  C3, as stated, fails: an HTTP error status other than 429 (here 500) is raised at the
  first attempt, after a single request.
\<close>

theorem fetch_server_error_no_retry:
  "fst (fetch_crypto_data always_server_error ''bitcoin'' 30 world0) = Inl (HTTPError 500)
   \<and> requests_made (snd (fetch_crypto_data always_server_error ''bitcoin'' 30 world0))
       = [''bitcoin'']"
  by (simp add: fetch_crypto_data_def range_max_retries always_server_error_def
      logger_def world0_def Let_def)

text \<open>
  C3, amended: an error that is not an HTTP status error (a connection failure, a timeout)
  on every attempt is retried up to the ceiling of three requests, with the fixed delay
  between them (10 seconds in all), and then raised; an HTTP error status other than 429 is
  raised at once, after the one request that met it.
\<close>

theorem fetch_other_errors:
  "((\<forall>k<max_retries. remote coin_id days k = ConnectionFailure) \<longrightarrow>
      fst (fetch_crypto_data remote coin_id days w) = Inl RequestException
    \<and> requests_made (snd (fetch_crypto_data remote coin_id days w))
        = requests_made w @ [coin_id, coin_id, coin_id]
    \<and> slept (snd (fetch_crypto_data remote coin_id days w)) = slept w + 10)
   \<and> (remote coin_id days 0 = HttpStatus code \<and> code \<noteq> 429 \<longrightarrow>
      fst (fetch_crypto_data remote coin_id days w) = Inl (HTTPError code)
    \<and> requests_made (snd (fetch_crypto_data remote coin_id days w))
        = requests_made w @ [coin_id]
    \<and> slept (snd (fetch_crypto_data remote coin_id days w)) = slept w)"
proof (intro conjI impI)
  assume a: "\<forall>k<max_retries. remote coin_id days k = ConnectionFailure"
  then have r: "remote coin_id days 0 = ConnectionFailure"
    "remote coin_id days 1 = ConnectionFailure" "remote coin_id days 2 = ConnectionFailure"
    by (simp_all add: max_retries_def)
  show "fst (fetch_crypto_data remote coin_id days w) = Inl RequestException"
    using r by (simp add: fetch_crypto_data_def range_max_retries last_attempt Let_def)
  show "requests_made (snd (fetch_crypto_data remote coin_id days w))
          = requests_made w @ [coin_id, coin_id, coin_id]"
    using r by (simp add: fetch_crypto_data_def range_max_retries last_attempt
        logger_def sleep_def Let_def)
  show "slept (snd (fetch_crypto_data remote coin_id days w)) = slept w + 10"
    using r by (simp add: fetch_crypto_data_def range_max_retries last_attempt
        logger_def sleep_def retry_delay_def Let_def)
next
  assume b: "remote coin_id days 0 = HttpStatus code \<and> code \<noteq> 429"
  show "fst (fetch_crypto_data remote coin_id days w) = Inl (HTTPError code)"
    using b by (simp add: fetch_crypto_data_def range_max_retries Let_def)
  show "requests_made (snd (fetch_crypto_data remote coin_id days w))
          = requests_made w @ [coin_id]"
    using b by (simp add: fetch_crypto_data_def range_max_retries logger_def Let_def)
  show "slept (snd (fetch_crypto_data remote coin_id days w)) = slept w"
    using b by (simp add: fetch_crypto_data_def range_max_retries logger_def Let_def)
qed

theorem fetch_other_errors_witness:
  "always_unreachable ''bitcoin'' 30 0 = ConnectionFailure
   \<and> always_unreachable ''bitcoin'' 30 1 = ConnectionFailure
   \<and> always_unreachable ''bitcoin'' 30 2 = ConnectionFailure
   \<and> fst (fetch_crypto_data always_unreachable ''bitcoin'' 30 world0) = Inl RequestException
   \<and> requests_made (snd (fetch_crypto_data always_unreachable ''bitcoin'' 30 world0))
       = [''bitcoin'', ''bitcoin'', ''bitcoin'']
   \<and> slept (snd (fetch_crypto_data always_unreachable ''bitcoin'' 30 world0)) = 10
   \<and> always_server_error ''ethereum'' 30 0 = HttpStatus 500
   \<and> fst (fetch_crypto_data always_server_error ''ethereum'' 30 world0) = Inl (HTTPError 500)
   \<and> requests_made (snd (fetch_crypto_data always_server_error ''ethereum'' 30 world0))
       = [''ethereum'']
   \<and> slept (snd (fetch_crypto_data always_server_error ''ethereum'' 30 world0)) = 0"
proof -
  have h1: "\<forall>k<max_retries. always_unreachable ''bitcoin'' 30 k = ConnectionFailure"
    by (simp add: always_unreachable_def)
  have h2: "always_server_error ''ethereum'' 30 0 = HttpStatus 500 \<and> (500::nat) \<noteq> 429"
    by (simp add: always_server_error_def)
  from fetch_other_errors [of always_unreachable "''bitcoin''" 30 world0 500]
    fetch_other_errors [of always_server_error "''ethereum''" 30 world0 500] h1 h2
  show ?thesis
    by (simp add: world0_def always_unreachable_def always_server_error_def)
qed

section \<open>Properties of the collector's store and job\<close>

lemma filter_insert_or_replace:
  "filter (\<lambda>x. date x = d) (insert_or_replace tbl r)
     = (if date r = d then [r] else filter (\<lambda>x. date x = d) tbl)"
  by (auto simp: insert_or_replace_def filter_empty_conv intro: filter_cong)

lemma distinct_insert_or_replace:
  "distinct (map date tbl) \<Longrightarrow> distinct (map date (insert_or_replace tbl r))"
  by (auto simp: insert_or_replace_def distinct_map_filter)

lemma distinct_upserts:
  "distinct (map date tbl) \<Longrightarrow> distinct (map date (foldl insert_or_replace tbl rows))"
  by (induction rows arbitrary: tbl) (simp_all add: distinct_insert_or_replace)

lemma insert_or_replace_Nil: "insert_or_replace [] r = [r]"
  by (simp add: insert_or_replace_def)

lemma filter_notin_insert_or_replace:
  "filter (\<lambda>x. date x \<notin> date ` set rs) (insert_or_replace tbl r)
     = filter (\<lambda>x. date x \<notin> date ` set (r # rs)) tbl
       @ filter (\<lambda>x. date x \<notin> date ` set rs) [r]"
proof -
  have "filter (\<lambda>x. date x \<notin> date ` set rs) (filter (\<lambda>x. date x \<noteq> date r) tbl)
          = filter (\<lambda>x. date x \<notin> date ` set (r # rs)) tbl"
    by (auto intro: filter_cong)
  then show ?thesis
    by (simp add: insert_or_replace_def)
qed

lemma upserts_split:
  "foldl insert_or_replace tbl rows
     = filter (\<lambda>x. date x \<notin> date ` set rows) tbl @ foldl insert_or_replace [] rows"
proof (induction rows arbitrary: tbl)
  case Nil
  then show ?case by simp
next
  case (Cons r rs)
  let ?N = "foldl insert_or_replace [] rs"
  let ?R = "filter (\<lambda>x. date x \<notin> date ` set rs) [r]"
  have "foldl insert_or_replace tbl (r # rs) = foldl insert_or_replace (insert_or_replace tbl r) rs"
    by simp
  also have "\<dots> = filter (\<lambda>x. date x \<notin> date ` set rs) (insert_or_replace tbl r) @ ?N"
    by (rule Cons.IH)
  also have "\<dots> = filter (\<lambda>x. date x \<notin> date ` set (r # rs)) tbl @ (?R @ ?N)"
    by (simp only: filter_notin_insert_or_replace append_assoc)
  also have "?R @ ?N = foldl insert_or_replace [r] rs"
    by (rule Cons.IH [symmetric])
  also have "foldl insert_or_replace [r] rs = foldl insert_or_replace [] (r # rs)"
    by (simp add: insert_or_replace_Nil)
  finally show ?case .
qed

lemma dates_insert_or_replace:
  "date ` set (insert_or_replace tbl r) = insert (date r) (date ` set tbl)"
  by (force simp: insert_or_replace_def)

lemma dates_upserts:
  "date ` set (foldl insert_or_replace tbl rows) = date ` set tbl \<union> date ` set rows"
  by (induction rows arbitrary: tbl) (auto simp: dates_insert_or_replace)

lemma dates_upserts_Nil: "date ` set (foldl insert_or_replace [] rows) = date ` set rows"
  by (simp add: dates_upserts)

lemma upserts_idem:
  "foldl insert_or_replace (foldl insert_or_replace tbl rows) rows
     = foldl insert_or_replace tbl rows"
proof -
  let ?new = "foldl insert_or_replace [] rows"
  let ?keep = "filter (\<lambda>x. date x \<notin> date ` set rows) tbl"
  have "filter (\<lambda>x. date x \<notin> date ` set rows) ?new = []"
    using dates_upserts_Nil [of rows] by (auto simp: filter_empty_conv)
  then have "filter (\<lambda>x. date x \<notin> date ` set rows) (?keep @ ?new) = ?keep"
    by simp
  then show ?thesis
    using upserts_split [of tbl rows] upserts_split [of "?keep @ ?new" rows] by simp
qed

lemma filter_upserts_other:
  "d \<notin> date ` set rows
   \<Longrightarrow> filter (\<lambda>x. date x = d) (foldl insert_or_replace tbl rows) = filter (\<lambda>x. date x = d) tbl"
  by (induction rows arbitrary: tbl) (auto simp: filter_insert_or_replace)

lemma filter_upserts_last_write:
  assumes "date r \<notin> date ` set after"
  shows "filter (\<lambda>x. date x = date r) (foldl insert_or_replace tbl (before @ r # after)) = [r]"
  using assms by (simp add: filter_upserts_other filter_insert_or_replace)

lemma store_data_tables_dom:
  "(tables (snd (store_data coin_id data w)) coin_id = None) = (tables w coin_id = None)"
  by (simp add: store_data_def logger_def split: sum.splits option.splits)

lemma store_data_utc_offset: "utc_offset (snd (store_data coin_id data w)) = utc_offset w"
  by (simp add: store_data_def logger_def split: sum.splits option.splits)

lemma store_data_twice:
  "tables (snd (store_data coin_id data (snd (store_data coin_id data w))))
     = tables (snd (store_data coin_id data w))"
  by (simp add: store_data_def logger_def upserts_idem split: sum.splits option.splits)

text \<open>
  C6: the store operation is an upsert keyed by calendar date. Whatever the table held
  before (for instance date \<open>D\<close> with price \<open>P\<close>, stored by an earlier run), after a store
  whose last entry for the date of \<open>r\<close> is the row \<open>r\<close> (say date \<open>D\<close> with price \<open>P'\<close>) the
  table holds exactly one row for that date and it is \<open>r\<close>; and storing the same data a
  second time leaves every table as the first store left it.
\<close>

theorem store_data_upsert:
  "(tables w coin_id = Some tbl \<and> zipped data' = Inr entries
      \<and> map (to_row (utc_offset w)) entries = before @ r # after
      \<and> date r \<notin> date ` set after
    \<longrightarrow> (\<exists>tbl'. tables (snd (store_data coin_id data' (snd (store_data coin_id data w)))) coin_id
                  = Some tbl'
              \<and> filter (\<lambda>x. date x = date r) tbl' = [r]))
   \<and> tables (snd (store_data coin_id data (snd (store_data coin_id data w))))
       = tables (snd (store_data coin_id data w))"
proof (intro conjI impI)
  assume a: "tables w coin_id = Some tbl \<and> zipped data' = Inr entries
      \<and> map (to_row (utc_offset w)) entries = before @ r # after
      \<and> date r \<notin> date ` set after"
  let ?w1 = "snd (store_data coin_id data w)"
  from a have "tables ?w1 coin_id \<noteq> None"
    by (simp add: store_data_tables_dom)
  then obtain t1 where t1: "tables ?w1 coin_id = Some t1" by auto
  from a have ne: "entries \<noteq> []" by auto
  from a have rows: "map (to_row (utc_offset ?w1)) entries = before @ r # after"
    by (simp add: store_data_utc_offset)
  have "tables (snd (store_data coin_id data' ?w1)) coin_id
          = Some (foldl insert_or_replace t1 (before @ r # after))"
    using a t1 ne rows by (simp add: store_data_def logger_def)
  moreover have "filter (\<lambda>x. date x = date r) (foldl insert_or_replace t1 (before @ r # after)) = [r]"
    using a by (intro filter_upserts_last_write) simp
  ultimately show "\<exists>tbl'. tables (snd (store_data coin_id data' ?w1)) coin_id = Some tbl'
              \<and> filter (\<lambda>x. date x = date r) tbl' = [r]"
    by blast
next
  show "tables (snd (store_data coin_id data (snd (store_data coin_id data w))))
       = tables (snd (store_data coin_id data w))"
    by (rule store_data_twice)
qed

lemma zipped_sample_body:
  "zipped (sample_body t p) = Inr [((t, Some p), (t, Some 5), (t, Some 1000))]"
  by (simp add: zipped_def sample_body_def lookup_def)

theorem store_data_upsert_witness:
  "tables (snd (store_data ''bitcoin'' (sample_body 1700003600000 200)
             (snd (store_data ''bitcoin'' (sample_body 1700000000000 100) world1)))) ''bitcoin''
     = Some [\<lparr>date = 19675, price = Some 200, volume = Some 5, market_cap = Some 1000\<rparr>]
   \<and> tables (snd (store_data ''bitcoin'' (sample_body 1700000000000 100)
             (snd (store_data ''bitcoin'' (sample_body 1700000000000 100) world1))))
     = tables (snd (store_data ''bitcoin'' (sample_body 1700000000000 100) world1))"
proof -
  let ?r = "\<lparr>date = 19675, price = Some 200, volume = Some 5, market_cap = Some 1000\<rparr>"
  have h: "tables world1 ''bitcoin'' = Some []
      \<and> zipped (sample_body 1700003600000 200)
          = Inr [((1700003600000, Some 200), (1700003600000, Some 5), (1700003600000, Some 1000))]
      \<and> map (to_row (utc_offset world1))
          [((1700003600000, Some 200), (1700003600000, Some 5), (1700003600000, Some 1000))]
          = [] @ ?r # []
      \<and> date ?r \<notin> date ` set []"
    by (simp add: world1_def world0_def zipped_sample_body date_of_timestamp_def)
  from store_data_upsert [of world1 "''bitcoin''" "[]" "sample_body 1700003600000 200"
      "[((1700003600000, Some 200), (1700003600000, Some 5), (1700003600000, Some 1000))]"
      "[]" ?r "[]" "sample_body 1700000000000 100"] h
  show ?thesis
    by (simp add: store_data_def zipped_sample_body world1_def world0_def logger_def
        date_of_timestamp_def insert_or_replace_def)
qed

lemma fetch_attempts_fst:
  "fst (fetch_attempts remote coin_id days attempts w)
     = fst (fetch_attempts remote coin_id days attempts w')"
proof (induction attempts arbitrary: w w')
  case Nil
  then show ?case by simp
next
  case (Cons a attempts)
  show ?case
  proof (cases "remote coin_id days a")
    case (Body d)
    then show ?thesis by (simp add: Let_def)
  next
    case (HttpStatus code)
    then show ?thesis using Cons.IH by (simp add: Let_def)
  next
    case ConnectionFailure
    then show ?thesis using Cons.IH by (simp add: Let_def)
  qed
qed

lemma fetch_crypto_data_fst:
  "fst (fetch_crypto_data remote coin_id days w) = fst (fetch_crypto_data remote coin_id days w')"
  unfolding fetch_crypto_data_def by (rule fetch_attempts_fst)

lemma fetch_attempts_tables:
  "tables (snd (fetch_attempts remote coin_id days attempts w)) = tables w"
  by (induction attempts arbitrary: w)
     (simp_all add: Let_def logger_def sleep_def split: response.splits)

lemma fetch_attempts_requests:
  "set (requests_made (snd (fetch_attempts remote coin_id days attempts w)))
     \<subseteq> insert coin_id (set (requests_made w))"
proof (induction attempts arbitrary: w)
  case Nil
  then show ?case by auto
next
  case (Cons a attempts)
  let ?w1 = "w\<lparr>requests_made := requests_made w @ [coin_id]\<rparr>"
  have step: "\<And>v. set (requests_made v) \<subseteq> insert coin_id (set (requests_made w))
      \<Longrightarrow> set (requests_made (snd (fetch_attempts remote coin_id days attempts v)))
          \<subseteq> insert coin_id (set (requests_made w))"
    using Cons.IH by blast
  show ?case
  proof (cases "remote coin_id days a")
    case (Body d)
    then show ?thesis by (auto simp: Let_def logger_def)
  next
    case (HttpStatus code)
    show ?thesis
    proof (cases "code = 429")
      case True
      with HttpStatus show ?thesis
        by (simp add: Let_def) (rule step, auto simp: logger_def sleep_def)
    next
      case False
      with HttpStatus show ?thesis by (auto simp: Let_def logger_def)
    qed
  next
    case ConnectionFailure
    show ?thesis
    proof (cases "a = max_retries - 1")
      case True
      with ConnectionFailure show ?thesis by (auto simp: Let_def logger_def)
    next
      case False
      with ConnectionFailure show ?thesis
        by (simp add: Let_def) (rule step, auto simp: logger_def sleep_def)
    qed
  qed
qed

lemma fetch_crypto_data_tables:
  "tables (snd (fetch_crypto_data remote coin_id days w)) = tables w"
  unfolding fetch_crypto_data_def by (rule fetch_attempts_tables)

lemma fetch_crypto_data_requests:
  "set (requests_made (snd (fetch_crypto_data remote coin_id days w)))
     \<subseteq> insert coin_id (set (requests_made w))"
  unfolding fetch_crypto_data_def by (rule fetch_attempts_requests)

lemma main_fetch_raises:
  assumes "connectable w"
      and "fst (fetch_crypto_data remote ''bitcoin'' 30 (started w)) = Inl e"
  shows "main remote w
           = (Inl e, logger INFO ''Database connection closed''
                (logger ERROR ''Error in main process''
                  (snd (fetch_crypto_data remote ''bitcoin'' 30 (started w)))))"
  using assms
  by (simp add: main_def create_database_def coins_def started_def split_beta
      split: sum.splits)

lemma main_store_raises:
  assumes "connectable w"
      and "fst (fetch_crypto_data remote ''bitcoin'' 30 (started w)) = Inr (Some d)"
      and "d \<noteq> []" and "zipped d = Inl e"
  shows "main remote w
           = (Inl e, logger INFO ''Database connection closed''
                (logger ERROR ''Error in main process''
                  (snd (fetch_crypto_data remote ''bitcoin'' 30 (started w)))))"
  using assms
  by (simp add: main_def create_database_def coins_def started_def split_beta store_data_def
      split: sum.splits)

lemma main_continues_after_rate_limit:
  assumes "connectable w"
      and "remote ''bitcoin'' 30 0 = HttpStatus 429" and "remote ''bitcoin'' 30 1 = HttpStatus 429"
      and "remote ''bitcoin'' 30 2 = HttpStatus 429"
      and "remote ''ethereum'' 30 0 = Body d" and "d \<noteq> []" and "zipped d = Inr entries"
  shows "fst (main remote w) = Inr ()"
    and "(ERROR, ''No data received for bitcoin'') \<in> set (log_lines (snd (main remote w)))"
    and "tables (snd (main remote w)) ''ethereum''
           = Some (foldl insert_or_replace (case tables w ''ethereum'' of None \<Rightarrow> [] | Some t \<Rightarrow> t)
                    (map (to_row (utc_offset w)) entries))"
  using assms
  by (simp_all add: main_def create_database_def coins_def fetch_crypto_data_def
      range_max_retries Let_def store_data_def logger_def sleep_def
      create_table_if_not_exists_def split: option.splits)

text \<open>
  C2, amended: over the fixed asset list, a fetch that ends without data because every
  attempt was rate limited is logged and the job goes on to fetch and store the next asset;
  a fetch or a store that raises is logged once by the job and ends the run: the error is
  raised again, no request is sent for a later asset and no table is written.
\<close>

theorem main_asset_failures:
  assumes "connectable w"
  shows "((\<forall>k<max_retries. remote ''bitcoin'' 30 k = HttpStatus 429)
          \<and> remote ''ethereum'' 30 0 = Body d \<and> d \<noteq> [] \<and> zipped d = Inr entries \<longrightarrow>
            fst (main remote w) = Inr ()
          \<and> (ERROR, ''No data received for bitcoin'') \<in> set (log_lines (snd (main remote w)))
          \<and> tables (snd (main remote w)) ''ethereum''
              = Some (foldl insert_or_replace
                       (case tables w ''ethereum'' of None \<Rightarrow> [] | Some t \<Rightarrow> t)
                       (map (to_row (utc_offset w)) entries)))
       \<and> (fst (fetch_crypto_data remote ''bitcoin'' 30 w) = Inl e
          \<or> fst (fetch_crypto_data remote ''bitcoin'' 30 w) = Inr (Some b) \<and> b \<noteq> []
              \<and> zipped b = Inl e \<longrightarrow>
            fst (main remote w) = Inl e
          \<and> (ERROR, ''Error in main process'') \<in> set (log_lines (snd (main remote w)))
          \<and> set (requests_made (snd (main remote w))) \<subseteq> insert ''bitcoin'' (set (requests_made w))
          \<and> tables (snd (main remote w)) = tables (snd (create_database w)))"
proof (intro conjI impI)
  assume a: "(\<forall>k<max_retries. remote ''bitcoin'' 30 k = HttpStatus 429)
          \<and> remote ''ethereum'' 30 0 = Body d \<and> d \<noteq> [] \<and> zipped d = Inr entries"
  then have r: "remote ''bitcoin'' 30 0 = HttpStatus 429" "remote ''bitcoin'' 30 1 = HttpStatus 429"
    "remote ''bitcoin'' 30 2 = HttpStatus 429"
    by (simp_all add: max_retries_def)
  from a have e: "remote ''ethereum'' 30 0 = Body d" "d \<noteq> []" "zipped d = Inr entries"
    by simp_all
  show "fst (main remote w) = Inr ()"
    by (rule main_continues_after_rate_limit(1) [where remote = remote, OF assms r e])
  show "(ERROR, ''No data received for bitcoin'') \<in> set (log_lines (snd (main remote w)))"
    by (rule main_continues_after_rate_limit(2) [where remote = remote, OF assms r e])
  show "tables (snd (main remote w)) ''ethereum''
          = Some (foldl insert_or_replace (case tables w ''ethereum'' of None \<Rightarrow> [] | Some t \<Rightarrow> t)
                   (map (to_row (utc_offset w)) entries))"
    by (rule main_continues_after_rate_limit(3) [where remote = remote, OF assms r e])
next
  assume b: "fst (fetch_crypto_data remote ''bitcoin'' 30 w) = Inl e
          \<or> fst (fetch_crypto_data remote ''bitcoin'' 30 w) = Inr (Some b) \<and> b \<noteq> []
              \<and> zipped b = Inl e"
  let ?w1 = "snd (fetch_crypto_data remote ''bitcoin'' 30 (started w))"
  have m: "main remote w
             = (Inl e, logger INFO ''Database connection closed''
                 (logger ERROR ''Error in main process'' ?w1))"
    using b
  proof
    assume "fst (fetch_crypto_data remote ''bitcoin'' 30 w) = Inl e"
    then have "fst (fetch_crypto_data remote ''bitcoin'' 30 (started w)) = Inl e"
      by (simp add: fetch_crypto_data_fst [of remote "''bitcoin''" 30 "started w" w])
    then show ?thesis by (rule main_fetch_raises [OF assms])
  next
    assume c: "fst (fetch_crypto_data remote ''bitcoin'' 30 w) = Inr (Some b) \<and> b \<noteq> []
              \<and> zipped b = Inl e"
    then have f: "fst (fetch_crypto_data remote ''bitcoin'' 30 (started w)) = Inr (Some b)"
      by (simp add: fetch_crypto_data_fst [of remote "''bitcoin''" 30 "started w" w])
    from c have c1: "b \<noteq> []" and c2: "zipped b = Inl e"
      by blast+
    show ?thesis by (rule main_store_raises [OF assms f c1 c2])
  qed
  show "fst (main remote w) = Inl e"
    by (simp add: m)
  show "(ERROR, ''Error in main process'') \<in> set (log_lines (snd (main remote w)))"
    by (simp add: m logger_def)
  have "set (requests_made ?w1) \<subseteq> insert ''bitcoin'' (set (requests_made (started w)))"
    by (rule fetch_crypto_data_requests)
  moreover have "requests_made (started w) = requests_made w"
    by (simp add: started_def create_database_def logger_def)
  ultimately show "set (requests_made (snd (main remote w)))
      \<subseteq> insert ''bitcoin'' (set (requests_made w))"
    by (simp add: m logger_def)
  show "tables (snd (main remote w)) = tables (snd (create_database w))"
    by (simp add: m logger_def fetch_crypto_data_tables started_def)
qed

text \<open>
  C2, as stated, fails: when the fetch for bitcoin meets HTTP 500 the job raises; no
  request is sent for ethereum, whose data the API would have served, and its table stays
  empty.
\<close>

theorem main_aborts_on_first_failure:
  "fst (main bitcoin_down world0) = Inl (HTTPError 500)
   \<and> requests_made (snd (main bitcoin_down world0)) = [''bitcoin'']
   \<and> bitcoin_down ''ethereum'' 30 0 = Body (sample_body 1700000000000 100)
   \<and> tables (snd (main bitcoin_down world0)) ''ethereum'' = Some []"
  by (simp add: main_def create_database_def coins_def fetch_crypto_data_def
      range_max_retries Let_def logger_def world0_def bitcoin_down_def
      create_table_if_not_exists_def)

theorem main_asset_failures_witness:
  "connectable world0
   \<and> bitcoin_limited ''bitcoin'' 30 0 = HttpStatus 429
   \<and> bitcoin_limited ''bitcoin'' 30 1 = HttpStatus 429
   \<and> bitcoin_limited ''bitcoin'' 30 2 = HttpStatus 429
   \<and> fst (main bitcoin_limited world0) = Inr ()
   \<and> (ERROR, ''No data received for bitcoin'') \<in> set (log_lines (snd (main bitcoin_limited world0)))
   \<and> tables (snd (main bitcoin_limited world0)) ''ethereum''
       = Some [\<lparr>date = 19675, price = Some 100, volume = Some 5, market_cap = Some 1000\<rparr>]
   \<and> fst (fetch_crypto_data bitcoin_down ''bitcoin'' 30 world0) = Inl (HTTPError 500)
   \<and> fst (main bitcoin_down world0) = Inl (HTTPError 500)
   \<and> set (requests_made (snd (main bitcoin_down world0))) \<subseteq> {''bitcoin''}
   \<and> fst (fetch_crypto_data bitcoin_malformed ''bitcoin'' 30 world0) = Inr (Some [(''status'', [])])
   \<and> zipped [(''status'', [])] = Inl (KeyError ''prices'')
   \<and> fst (main bitcoin_malformed world0) = Inl (KeyError ''prices'')
   \<and> set (requests_made (snd (main bitcoin_malformed world0))) \<subseteq> {''bitcoin''}"
proof -
  have c: "connectable world0" by (simp add: world0_def)
  have h1: "(\<forall>k<max_retries. bitcoin_limited ''bitcoin'' 30 k = HttpStatus 429)
      \<and> bitcoin_limited ''ethereum'' 30 0 = Body (sample_body 1700000000000 100)
      \<and> sample_body 1700000000000 100 \<noteq> []
      \<and> zipped (sample_body 1700000000000 100)
          = Inr [((1700000000000, Some 100), (1700000000000, Some 5), (1700000000000, Some 1000))]"
    by (simp add: bitcoin_limited_def zipped_sample_body) (simp add: sample_body_def)
  have h2: "fst (fetch_crypto_data bitcoin_down ''bitcoin'' 30 world0) = Inl (HTTPError 500)"
    by (simp add: fetch_crypto_data_def range_max_retries Let_def bitcoin_down_def)
  have h3: "fst (fetch_crypto_data bitcoin_malformed ''bitcoin'' 30 world0)
              = Inr (Some [(''status'', [])])
      \<and> [(''status'', [])] \<noteq> ([] :: json)
      \<and> zipped [(''status'', [])] = Inl (KeyError ''prices'')"
    by (simp add: fetch_crypto_data_def range_max_retries Let_def bitcoin_malformed_def
        zipped_def lookup_def)
  note t1 = main_asset_failures [OF c, of bitcoin_limited "sample_body 1700000000000 100"
      "[((1700000000000, Some 100), (1700000000000, Some 5), (1700000000000, Some 1000))]"
      "HTTPError 500" "[]"]
  note t2 = main_asset_failures [OF c, of bitcoin_down "[]" "[]" "HTTPError 500" "[]"]
  note t3 = main_asset_failures [OF c, of bitcoin_malformed "[]" "[]" "KeyError ''prices''"
      "[(''status'', [])]"]
  from t1 h1 have a1: "fst (main bitcoin_limited world0) = Inr ()
      \<and> (ERROR, ''No data received for bitcoin'') \<in> set (log_lines (snd (main bitcoin_limited world0)))
      \<and> tables (snd (main bitcoin_limited world0)) ''ethereum''
       = Some [\<lparr>date = 19675, price = Some 100, volume = Some 5, market_cap = Some 1000\<rparr>]"
    by (simp add: world0_def insert_or_replace_def date_of_timestamp_def)
  from t2 h2 have a2: "fst (main bitcoin_down world0) = Inl (HTTPError 500)
      \<and> set (requests_made (snd (main bitcoin_down world0))) \<subseteq> {''bitcoin''}"
    by (simp add: world0_def)
  from t3 h3 have a3: "fst (main bitcoin_malformed world0) = Inl (KeyError ''prices'')
      \<and> set (requests_made (snd (main bitcoin_malformed world0))) \<subseteq> {''bitcoin''}"
    by (simp add: world0_def)
  from c h1 h2 h3 a1 a2 a3 show ?thesis
    by (simp add: bitcoin_limited_def)
qed

section \<open>Properties of the cleaning stage\<close>

lemma length_interpolate_from: "length (interpolate_from prev i xs) = length xs"
  by (induction prev i xs rule: interpolate_from.induct) simp_all

lemma length_interpolate_linear: "length (interpolate_linear xs) = length xs"
  by (simp add: interpolate_linear_def length_interpolate_from)

lemma interpolate_from_keeps:
  "n < length xs \<Longrightarrow> xs ! n = Some v \<Longrightarrow> interpolate_from prev i xs ! n = Some v"
proof (induction prev i xs arbitrary: n rule: interpolate_from.induct)
  case (1 prev i)
  then show ?case by simp
next
  case (2 prev i w xs)
  then show ?case by (cases n) simp_all
next
  case (3 prev i xs)
  then show ?case by (cases n) simp_all
qed

lemma interpolate_linear_keeps:
  "n < length xs \<Longrightarrow> xs ! n = Some v \<Longrightarrow> interpolate_linear xs ! n = Some v"
  by (simp add: interpolate_linear_def interpolate_from_keeps)

lemma length_interpolate: "length (interpolate df) = length df"
  by (simp add: interpolate_def length_interpolate_linear)

lemma interpolate_nth:
  assumes "n < length df"
  shows "interpolate df ! n
           = (df ! n)\<lparr>price := interpolate_linear (map price df) ! n,
                      volume := interpolate_linear (map volume df) ! n,
                      market_cap := interpolate_linear (map market_cap df) ! n\<rparr>"
  using assms by (simp add: interpolate_def length_interpolate_linear)

lemma interpolate_date: "n < length df \<Longrightarrow> date (interpolate df ! n) = date (df ! n)"
  by (simp add: interpolate_nth)

lemma interpolate_le0_price:
  "n < length df \<Longrightarrow> le0 (price (df ! n)) \<Longrightarrow> price (interpolate df ! n) = price (df ! n)"
  by (cases "price (df ! n)") (simp_all add: le0_def interpolate_nth interpolate_linear_keeps)

lemma interpolate_le0_volume:
  "n < length df \<Longrightarrow> le0 (volume (df ! n)) \<Longrightarrow> volume (interpolate df ! n) = volume (df ! n)"
  by (cases "volume (df ! n)") (simp_all add: le0_def interpolate_nth interpolate_linear_keeps)

lemma length_filled: "length (filled df) = length df"
  by (simp add: filled_def length_interpolate)

lemma filled_date: "n < length df \<Longrightarrow> date (filled df ! n) = date (df ! n)"
  by (simp add: filled_def interpolate_date)

lemma filled_le0:
  "n < length df \<Longrightarrow> le0 (price (df ! n)) \<or> le0 (volume (df ! n))
   \<Longrightarrow> le0 (price (filled df ! n)) \<or> le0 (volume (filled df ! n))"
  by (auto simp: filled_def interpolate_le0_price interpolate_le0_volume)

lemma clean_data_filled:
  "clean_data df =
     sort_key date
       (if (\<exists>r\<in>set (filled df). le0 (price r)) \<or> (\<exists>r\<in>set (filled df). le0 (volume r))
        then filter (\<lambda>r. gt0 (price r) \<and> gt0 (volume r)) (filled df)
        else filled df)"
  by (simp add: clean_data_def filled_def Let_def)

lemma gt0_not_le0: "gt0 x \<Longrightarrow> \<not> le0 x"
  by (cases x) (simp_all add: gt0_def le0_def)

lemma clean_data_no_le0:
  "r \<in> set (clean_data df) \<Longrightarrow> \<not> le0 (price r) \<and> \<not> le0 (volume r)"
  by (auto simp: clean_data_filled gt0_not_le0 split: if_splits)

lemma clean_data_drops:
  assumes d: "distinct (map date df)" and r: "r \<in> set df"
      and bad: "le0 (price r) \<or> le0 (volume r)"
  shows "date r \<notin> date ` set (clean_data df)"
proof
  assume "date r \<in> date ` set (clean_data df)"
  then obtain r' where r': "r' \<in> set (clean_data df)" "date r' = date r" by auto
  from r obtain n where n: "n < length df" "df ! n = r"
    by (auto simp: in_set_conv_nth)
  from n bad have fbad: "le0 (price (filled df ! n)) \<or> le0 (volume (filled df ! n))"
    by (intro filled_le0) simp_all
  from n have "filled df ! n \<in> set (filled df)"
    by (simp add: length_filled)
  with fbad have anom: "(\<exists>r\<in>set (filled df). le0 (price r)) \<or> (\<exists>r\<in>set (filled df). le0 (volume r))"
    by blast
  with r' have in_f: "r' \<in> set (filled df)" and good: "gt0 (price r')" "gt0 (volume r')"
    by (simp_all add: clean_data_filled)
  from in_f obtain m where m: "m < length df" "filled df ! m = r'"
    by (auto simp: in_set_conv_nth length_filled)
  from m r' n have "date (df ! m) = date (df ! n)"
    using filled_date [of m df] by simp
  with d m n have "m = n"
    by (metis distinct_conv_nth length_map nth_map)
  with m fbad good show False
    by (auto dest: gt0_not_le0)
qed

text \<open>
  C8: for a series with one row per date, a row whose price or volume is zero or negative
  has no row at its date in the cleaned output (it is dropped, not replaced by an
  interpolated value), no row of the output has a price or volume that is zero or
  negative, and the output is sorted by ascending date.
\<close>

theorem clean_data_filters_and_sorts:
  assumes "distinct (map date df)"
  shows "(\<forall>r\<in>set df. le0 (price r) \<or> le0 (volume r) \<longrightarrow> date r \<notin> date ` set (clean_data df))
       \<and> (\<forall>r\<in>set (clean_data df). \<not> le0 (price r) \<and> \<not> le0 (volume r))
       \<and> sorted (map date (clean_data df))"
proof (intro conjI ballI impI)
  fix r assume "r \<in> set df" "le0 (price r) \<or> le0 (volume r)"
  then show "date r \<notin> date ` set (clean_data df)"
    by (rule clean_data_drops [OF assms])
next
  fix r assume "r \<in> set (clean_data df)"
  then show "\<not> le0 (price r)" "\<not> le0 (volume r)"
    by (simp_all add: clean_data_no_le0)
next
  show "sorted (map date (clean_data df))"
    by (simp add: clean_data_def Let_def)
qed

lemma list3: "length xs = 3 \<Longrightarrow> \<exists>a b c. xs = [a, b, c]"
  by (auto simp: length_Suc_conv numeral_3_eq_3)

text \<open>
  C7, as stated, fails: which value the middle day gets depends on how the three rows are
  presented and on the volumes. With the day after presented before the middle day the
  middle day gets 30, with the middle day presented first it gets 10, and with a middle
  volume of zero the middle day is dropped from the output.
\<close>

theorem interpolation_midpoint_needs_date_order:
  "map (\<lambda>r. (date r, price r))
     (clean_data [obs 1 (Some 10) (Some 5), obs 3 (Some 30) (Some 5), obs 2 None (Some 5)])
     = [(1, Some 10), (2, Some 30), (3, Some 30)]
   \<and> map (\<lambda>r. (date r, price r))
     (clean_data [obs 2 None (Some 5), obs 1 (Some 10) (Some 5), obs 3 (Some 30) (Some 5)])
     = [(1, Some 10), (2, Some 10), (3, Some 30)]
   \<and> map (\<lambda>r. (date r, price r))
     (clean_data [obs 1 (Some 10) (Some 5), obs 2 None (Some 0), obs 3 (Some 30) (Some 5)])
     = [(1, Some 10), (3, Some 30)]"
  by (simp add: clean_data_def obs_def isnull_any_def interpolate_def interpolate_linear_def
      le0_def gt0_def)

text \<open>
  C7, amended: three rows on consecutive days, presented in date order, with positive
  prices \<open>a\<close> and \<open>b\<close> on the outer days and the middle price missing (outer volumes positive,
  the middle volume positive or missing): cleaning keeps the three days and gives the
  middle day the price halfway between its neighbours, \<open>(a + b) / 2\<close>, which is 20 for the
  prices 10 and 30.
\<close>

theorem interpolation_midpoint:
  assumes "0 < a" and "0 < b" and "0 < v1" and "0 < v3"
      and "v2 = None \<or> (\<exists>v. v2 = Some v \<and> 0 < v)"
  shows "map (\<lambda>r. (date r, price r))
           (clean_data [\<lparr>date = d, price = Some a, volume = Some v1, market_cap = m1\<rparr>,
                        \<lparr>date = d + 1, price = None, volume = v2, market_cap = m2\<rparr>,
                        \<lparr>date = d + 2, price = Some b, volume = Some v3, market_cap = m3\<rparr>])
         = [(d, Some a), (d + 1, Some ((a + b) / 2)), (d + 2, Some b)]"
proof -
  have "a + (b - a) / 2 = (a + b) / 2"
    by (simp add: field_simps)
  then have p: "interpolate_linear [Some a, None, Some b] = [Some a, Some ((a + b) / 2), Some b]"
    by (simp add: interpolate_linear_def)
  have mid: "0 < (a + b) / 2"
    using assms(1,2) by simp
  have "\<exists>w. 0 < w \<and> interpolate_linear [Some v1, v2, Some v3] = [Some v1, Some w, Some v3]"
    using assms(5)
  proof
    assume "v2 = None"
    moreover have "0 < v1 + (v3 - v1) / 2" using assms(3,4) by (simp add: field_simps)
    ultimately show ?thesis by (simp add: interpolate_linear_def)
  next
    assume "\<exists>v. v2 = Some v \<and> 0 < v"
    then show ?thesis by (auto simp: interpolate_linear_def)
  qed
  then obtain w where w: "0 < w"
    and v: "interpolate_linear [Some v1, v2, Some v3] = [Some v1, Some w, Some v3]"
    by blast
  obtain c1 c2 c3 where c: "interpolate_linear [m1, m2, m3] = [c1, c2, c3]"
    using list3 [of "interpolate_linear [m1, m2, m3]"]
    by (auto simp: length_interpolate_linear)
  show ?thesis
    using assms(1-4) w mid
    by (simp add: clean_data_def isnull_any_def interpolate_def p v c le0_def gt0_def not_le)
qed

theorem interpolation_midpoint_witness:
  "map (\<lambda>r. (date r, price r))
     (clean_data [\<lparr>date = 19675, price = Some 10, volume = Some 5, market_cap = None\<rparr>,
                  \<lparr>date = 19676, price = None, volume = None, market_cap = None\<rparr>,
                  \<lparr>date = 19677, price = Some 30, volume = Some 7, market_cap = None\<rparr>])
     = [(19675, Some 10), (19676, Some 20), (19677, Some 30)]
   \<and> map (\<lambda>r. (date r, price r))
     (clean_data [\<lparr>date = 19675, price = Some 10, volume = Some 5, market_cap = Some 1\<rparr>,
                  \<lparr>date = 19676, price = None, volume = Some 6, market_cap = Some 1\<rparr>,
                  \<lparr>date = 19677, price = Some 50, volume = Some 7, market_cap = Some 1\<rparr>])
     = [(19675, Some 10), (19676, Some 30), (19677, Some 50)]"
  using interpolation_midpoint [of 10 30 5 7 None 19675 None None None]
    interpolation_midpoint [of 10 50 5 7 "Some 6" 19675 "Some 1" "Some 1" "Some 1"]
  by simp

theorem clean_data_filters_and_sorts_witness:
  "distinct (map date sample_frame)
   \<and> obs 1 (Some 0) (Some 5) \<in> set sample_frame \<and> le0 (price (obs 1 (Some 0) (Some 5)))
   \<and> 1 \<notin> date ` set (clean_data sample_frame)
   \<and> obs 2 None (Some 0) \<in> set sample_frame \<and> le0 (volume (obs 2 None (Some 0)))
   \<and> 2 \<notin> date ` set (clean_data sample_frame)
   \<and> sorted (map date (clean_data sample_frame))
   \<and> map date (clean_data sample_frame) = [3, 4]"
proof -
  have d: "distinct (map date sample_frame)"
    by (simp add: sample_frame_def obs_def)
  have m: "obs 1 (Some 0) (Some 5) \<in> set sample_frame" "le0 (price (obs 1 (Some 0) (Some 5)))"
    "obs 2 None (Some 0) \<in> set sample_frame" "le0 (volume (obs 2 None (Some 0)))"
    by (simp_all add: sample_frame_def obs_def le0_def)
  have c: "map date (clean_data sample_frame) = [3, 4]"
    by (simp add: sample_frame_def clean_data_def obs_def isnull_any_def interpolate_def
        interpolate_linear_def le0_def gt0_def)
  from clean_data_filters_and_sorts [OF d] m
  have "date (obs 1 (Some 0) (Some 5)) \<notin> date ` set (clean_data sample_frame)"
    "date (obs 2 None (Some 0)) \<notin> date ` set (clean_data sample_frame)"
    "sorted (map date (clean_data sample_frame))"
    by blast+
  with d m c show ?thesis
    by (simp add: obs_def)
qed

text \<open>
  C5, as stated, fails: interpolation runs over the rows as presented, before the sort. The
  same four observations give day 2 the price 20 in date order and 40 when day 3 is
  presented before day 2.
\<close>

theorem clean_data_depends_on_order:
  "mset in_date_order = mset out_of_date_order
   \<and> map (\<lambda>r. (date r, price r)) (clean_data in_date_order)
       = [(1, Some 10), (2, Some 20), (3, Some 30), (4, Some 50)]
   \<and> map (\<lambda>r. (date r, price r)) (clean_data out_of_date_order)
       = [(1, Some 10), (2, Some 40), (3, Some 30), (4, Some 50)]"
  by (simp add: in_date_order_def out_of_date_order_def clean_data_def obs_def isnull_any_def
      interpolate_def interpolate_linear_def le0_def gt0_def)

lemma filter_distinct_key:
  "distinct (map f xs) \<Longrightarrow> k \<in> set xs \<Longrightarrow> filter (\<lambda>x. f k = f x) xs = [k]"
proof (induction xs)
  case Nil
  then show ?case by simp
next
  case (Cons x xs)
  show ?case
  proof (cases "k = x")
    case True
    with Cons.prems have "filter (\<lambda>y. f k = f y) xs = []"
      by (auto simp: filter_empty_conv)
    with True show ?thesis by simp
  next
    case False
    with Cons.prems have "k \<in> set xs" "f k \<noteq> f x" by (auto simp: image_iff)
    with Cons show ?thesis by simp
  qed
qed

lemma sort_key_permutation:
  assumes "mset xs = mset ys" and "distinct (map f xs)"
  shows "sort_key f xs = sort_key f ys"
proof (rule properties_for_sort_key)
  show "mset (sort_key f ys) = mset xs"
    using assms(1) by simp
  show "sorted (map f (sort_key f ys))"
    by simp
  fix k assume k: "k \<in> set (sort_key f ys)"
  have "mset (map f (sort_key f ys)) = mset (map f xs)"
    using assms(1) by simp
  then have d: "distinct (map f (sort_key f ys))"
    using assms(2) by (metis mset_eq_imp_distinct_iff)
  from k assms(1) have kx: "k \<in> set xs"
    by (metis mset_eq_setD set_sort)
  show "filter (\<lambda>x. f k = f x) (sort_key f ys) = filter (\<lambda>x. f k = f x) xs"
    by (simp only: filter_distinct_key [OF d k] filter_distinct_key [OF assms(2) kx])
qed

text \<open>
  C5, amended: for observations with one row per date and no missing value, cleaning gives
  the same output in whatever order the rows are presented.
\<close>

theorem clean_data_order_independent:
  assumes "mset xs = mset ys" and "distinct (map date xs)" and "\<not> isnull_any xs"
  shows "clean_data xs = clean_data ys"
proof -
  from assms(1) have s: "set xs = set ys"
    by (rule mset_eq_setD)
  with assms(3) have n: "\<not> isnull_any ys"
    by (simp add: isnull_any_def)
  let ?keep = "\<lambda>r. gt0 (price r) \<and> gt0 (volume r)"
  have f: "mset (filter ?keep xs) = mset (filter ?keep ys)"
    using assms(1) by (metis mset_filter)
  have d: "distinct (map date (filter ?keep xs))"
    using assms(2) by (rule distinct_map_filter)
  show ?thesis
    using assms(3) n s sort_key_permutation [OF assms(1,2)] sort_key_permutation [OF f d]
    by (simp add: clean_data_def Let_def)
qed

theorem clean_data_order_independent_witness:
  "mset complete_frame = mset complete_frame_shuffled
   \<and> distinct (map date complete_frame)
   \<and> clean_data complete_frame = clean_data complete_frame_shuffled
   \<and> clean_data complete_frame = [obs 1 (Some 10) (Some 5), obs 3 (Some 30) (Some 5)]"
proof -
  have h1: "mset complete_frame = mset complete_frame_shuffled"
    by (simp add: complete_frame_def complete_frame_shuffled_def)
  have h2: "distinct (map date complete_frame)"
    by (simp add: complete_frame_def obs_def)
  have h3: "\<not> isnull_any complete_frame"
    by (simp add: complete_frame_def obs_def isnull_any_def)
  have c: "clean_data complete_frame = [obs 1 (Some 10) (Some 5), obs 3 (Some 30) (Some 5)]"
    by (simp add: complete_frame_def clean_data_def obs_def isnull_any_def le0_def gt0_def)
  from clean_data_order_independent [OF h1 h2 h3] h1 h2 c show ?thesis
    by simp
qed

section \<open>Properties of the weekday aggregation and its lookup\<close>

lemma arg_best_max_Some:
  assumes "arg_best (\<lambda>v b. b < v) i (Some (j, b)) xs = r"
  shows "\<exists>k m. r = Some (k, m) \<and> b \<le> m \<and> (\<forall>v. Some v \<in> set xs \<longrightarrow> v \<le> m)
           \<and> ((k = j \<and> m = b)
              \<or> (i \<le> k \<and> k - i < length xs \<and> xs ! (k - i) = Some m \<and> b < m
                  \<and> (\<forall>n<k - i. xs ! n \<noteq> Some m)))"
  using assms
proof (induction xs arbitrary: i j b r)
  case Nil
  then show ?case by auto
next
  case (Cons x xs)
  show ?case
  proof (cases x)
    case None
    with Cons.prems have "arg_best (\<lambda>v b. b < v) (Suc i) (Some (j, b)) xs = r" by simp
    from Cons.IH [OF this] obtain k m where km: "r = Some (k, m)" "b \<le> m"
      "\<forall>v. Some v \<in> set xs \<longrightarrow> v \<le> m"
      "(k = j \<and> m = b)
        \<or> (Suc i \<le> k \<and> k - Suc i < length xs \<and> xs ! (k - Suc i) = Some m \<and> b < m
            \<and> (\<forall>n<k - Suc i. xs ! n \<noteq> Some m))"
      by blast
    from km(4) have "(k = j \<and> m = b)
        \<or> (i \<le> k \<and> k - i < length (x # xs) \<and> (x # xs) ! (k - i) = Some m \<and> b < m
            \<and> (\<forall>n<k - i. (x # xs) ! n \<noteq> Some m))"
    proof
      assume "k = j \<and> m = b" then show ?thesis by simp
    next
      assume a: "Suc i \<le> k \<and> k - Suc i < length xs \<and> xs ! (k - Suc i) = Some m \<and> b < m
            \<and> (\<forall>n<k - Suc i. xs ! n \<noteq> Some m)"
      then have e: "k - i = Suc (k - Suc i)" by arith
      have "\<forall>n<k - i. (x # xs) ! n \<noteq> Some m"
      proof (intro allI impI)
        fix n assume "n < k - i"
        then show "(x # xs) ! n \<noteq> Some m"
          using a None e by (cases n) auto
      qed
      with a e show ?thesis by simp
    qed
    with km None show ?thesis by auto
  next
    case (Some v)
    show ?thesis
    proof (cases "b < v")
      case True
      with Cons.prems Some have "arg_best (\<lambda>v b. b < v) (Suc i) (Some (i, v)) xs = r" by simp
      from Cons.IH [OF this] obtain k m where km: "r = Some (k, m)" "v \<le> m"
        "\<forall>v. Some v \<in> set xs \<longrightarrow> v \<le> m"
        "(k = i \<and> m = v)
          \<or> (Suc i \<le> k \<and> k - Suc i < length xs \<and> xs ! (k - Suc i) = Some m \<and> v < m
              \<and> (\<forall>n<k - Suc i. xs ! n \<noteq> Some m))"
        by blast
      from km(4) have "i \<le> k \<and> k - i < length (x # xs) \<and> (x # xs) ! (k - i) = Some m \<and> b < m
              \<and> (\<forall>n<k - i. (x # xs) ! n \<noteq> Some m)"
      proof
        assume "k = i \<and> m = v" then show ?thesis using Some True by simp
      next
        assume a: "Suc i \<le> k \<and> k - Suc i < length xs \<and> xs ! (k - Suc i) = Some m \<and> v < m
              \<and> (\<forall>n<k - Suc i. xs ! n \<noteq> Some m)"
        then have e: "k - i = Suc (k - Suc i)" by arith
        have "\<forall>n<k - i. (x # xs) ! n \<noteq> Some m"
        proof (intro allI impI)
          fix n assume "n < k - i"
          then show "(x # xs) ! n \<noteq> Some m"
            using a Some e by (cases n) auto
        qed
        with a e True show ?thesis by simp
      qed
      with km Some True show ?thesis by auto
    next
      case False
      with Cons.prems Some have "arg_best (\<lambda>v b. b < v) (Suc i) (Some (j, b)) xs = r" by simp
      from Cons.IH [OF this] obtain k m where km: "r = Some (k, m)" "b \<le> m"
        "\<forall>v. Some v \<in> set xs \<longrightarrow> v \<le> m"
        "(k = j \<and> m = b)
          \<or> (Suc i \<le> k \<and> k - Suc i < length xs \<and> xs ! (k - Suc i) = Some m \<and> b < m
              \<and> (\<forall>n<k - Suc i. xs ! n \<noteq> Some m))"
        by blast
      from km(4) have "(k = j \<and> m = b)
          \<or> (i \<le> k \<and> k - i < length (x # xs) \<and> (x # xs) ! (k - i) = Some m \<and> b < m
              \<and> (\<forall>n<k - i. (x # xs) ! n \<noteq> Some m))"
      proof
        assume "k = j \<and> m = b" then show ?thesis by simp
      next
        assume a: "Suc i \<le> k \<and> k - Suc i < length xs \<and> xs ! (k - Suc i) = Some m \<and> b < m
              \<and> (\<forall>n<k - Suc i. xs ! n \<noteq> Some m)"
        then have e: "k - i = Suc (k - Suc i)" by arith
        have "\<forall>n<k - i. (x # xs) ! n \<noteq> Some m"
        proof (intro allI impI)
          fix n assume "n < k - i"
          then show "(x # xs) ! n \<noteq> Some m"
            using a Some False e by (cases n) auto
        qed
        with a e show ?thesis by simp
      qed
      with km Some False show ?thesis by auto
    qed
  qed
qed

lemma arg_best_max_None:
  assumes "Some v \<in> set xs"
  shows "\<exists>k m. arg_best (\<lambda>v b. b < v) i None xs = Some (k, m) \<and> i \<le> k \<and> k - i < length xs
           \<and> xs ! (k - i) = Some m \<and> (\<forall>v. Some v \<in> set xs \<longrightarrow> v \<le> m)
           \<and> (\<forall>n<k - i. xs ! n \<noteq> Some m)"
  using assms
proof (induction xs arbitrary: i)
  case Nil
  then show ?case by simp
next
  case (Cons x xs)
  show ?case
  proof (cases x)
    case None
    with Cons.prems have "Some v \<in> set xs" by auto
    from Cons.IH [OF this, of "Suc i"] obtain k m where
      km: "arg_best (\<lambda>v b. b < v) (Suc i) None xs = Some (k, m)" "Suc i \<le> k"
      "k - Suc i < length xs" "xs ! (k - Suc i) = Some m"
      "\<forall>v. Some v \<in> set xs \<longrightarrow> v \<le> m" "\<forall>n<k - Suc i. xs ! n \<noteq> Some m"
      by blast
    from km(2) have e: "k - i = Suc (k - Suc i)" by arith
    have "\<forall>n<k - i. (x # xs) ! n \<noteq> Some m"
    proof (intro allI impI)
      fix n assume "n < k - i"
      then show "(x # xs) ! n \<noteq> Some m"
        using km None e by (cases n) auto
    qed
    with km e None show ?thesis by auto
  next
    case (Some w)
    obtain k m where km: "arg_best (\<lambda>v b. b < v) (Suc i) (Some (i, w)) xs = Some (k, m)"
      "w \<le> m" "\<forall>v. Some v \<in> set xs \<longrightarrow> v \<le> m"
      "(k = i \<and> m = w)
        \<or> (Suc i \<le> k \<and> k - Suc i < length xs \<and> xs ! (k - Suc i) = Some m \<and> w < m
            \<and> (\<forall>n<k - Suc i. xs ! n \<noteq> Some m))"
      using arg_best_max_Some [OF refl, of "Suc i" i w xs] by blast
    from km(4) have "i \<le> k \<and> k - i < length (x # xs) \<and> (x # xs) ! (k - i) = Some m
              \<and> (\<forall>n<k - i. (x # xs) ! n \<noteq> Some m)"
    proof
      assume "k = i \<and> m = w" then show ?thesis using Some by simp
    next
      assume a: "Suc i \<le> k \<and> k - Suc i < length xs \<and> xs ! (k - Suc i) = Some m \<and> w < m
              \<and> (\<forall>n<k - Suc i. xs ! n \<noteq> Some m)"
      then have e: "k - i = Suc (k - Suc i)" by arith
      have "\<forall>n<k - i. (x # xs) ! n \<noteq> Some m"
      proof (intro allI impI)
        fix n assume "n < k - i"
        then show "(x # xs) ! n \<noteq> Some m"
          using a Some e by (cases n) auto
      qed
      with a e show ?thesis by simp
    qed
    with km Some show ?thesis by auto
  qed
qed

lemma idxmax_first:
  assumes "Some v \<in> set xs"
  shows "\<exists>i m. idxmax xs = Inr i \<and> i < length xs \<and> xs ! i = Some m
           \<and> (\<forall>v. Some v \<in> set xs \<longrightarrow> v \<le> m) \<and> (\<forall>n<i. xs ! n \<noteq> Some m)"
  using arg_best_max_None [OF assms, of 0] by (auto simp: idxmax_def)

lemma arg_best_min_max:
  "arg_best (\<lambda>v b. v < b) i best xs
     = map_option (\<lambda>(k, m). (k, - m))
         (arg_best (\<lambda>v b. b < v) i (map_option (\<lambda>(k, m). (k, - m)) best)
            (map (map_option uminus) xs))"
proof (induction xs arbitrary: i best)
  case Nil
  then show ?case by (cases best) (auto simp: option.map_comp comp_def)
next
  case (Cons x xs)
  show ?case
  proof (cases x)
    case None
    then show ?thesis by (simp add: Cons.IH)
  next
    case (Some v)
    then show ?thesis
      by (cases best) (auto simp: Cons.IH)
  qed
qed

lemma idxmin_idxmax: "idxmin xs = idxmax (map (map_option uminus) xs)"
  by (simp add: idxmin_def idxmax_def arg_best_min_max [of 0 None xs]
      split: option.splits)

lemma idxmin_first:
  assumes "Some v \<in> set xs"
  shows "\<exists>i m. idxmin xs = Inr i \<and> i < length xs \<and> xs ! i = Some m
           \<and> (\<forall>v. Some v \<in> set xs \<longrightarrow> m \<le> v) \<and> (\<forall>n<i. xs ! n \<noteq> Some m)"
proof -
  let ?ys = "map (map_option uminus) xs"
  from assms have "Some (- v) \<in> set ?ys" by force
  from idxmax_first [OF this] obtain i w where iw: "idxmax ?ys = Inr i" "i < length ?ys"
    "?ys ! i = Some w" "\<forall>v. Some v \<in> set ?ys \<longrightarrow> v \<le> w" "\<forall>n<i. ?ys ! n \<noteq> Some w"
    by blast
  from iw(2,3) have xi: "xs ! i = Some (- w)"
    by (cases "xs ! i") auto
  have le: "\<forall>v. Some v \<in> set xs \<longrightarrow> - w \<le> v"
  proof (intro allI impI)
    fix u assume "Some u \<in> set xs"
    then have "Some (- u) \<in> set ?ys" by force
    with iw(4) show "- w \<le> u" by fastforce
  qed
  have first: "\<forall>n<i. xs ! n \<noteq> Some (- w)"
  proof (intro allI impI)
    fix n assume n: "n < i"
    with iw(2,5) have "?ys ! n \<noteq> Some w" "n < length xs" by auto
    then show "xs ! n \<noteq> Some (- w)" by auto
  qed
  from iw xi le first show ?thesis
    by (auto simp: idxmin_idxmax)
qed

lemma weekday_reached:
  assumes "n < 7"
  shows "\<exists>k<7. strftime_w (d + int k) = n"
proof -
  let ?j = "(int n - (d + 4)) mod 7"
  have j: "0 \<le> ?j" "?j < 7" by simp_all
  have "(d + 4 + ?j) mod 7 = (d + 4 + (int n - (d + 4))) mod 7"
    by (rule mod_add_right_eq)
  also have "\<dots> = int n mod 7" by simp
  also have "\<dots> = int n" using assms by simp
  finally have "(d + int (nat ?j) + 4) mod 7 = int n"
    using j by (simp add: ac_simps)
  then have "strftime_w (d + int (nat ?j)) = n"
    by (simp add: strftime_w_def)
  moreover from j have "nat ?j < 7" by simp
  ultimately show ?thesis by blast
qed

lemma weekday_group_nonempty:
  assumes "r \<in> set tbl" and "strftime_w (date r) = n"
  shows "map weekday (weekday_group tbl n) = [day_name n]"
proof -
  from assms have "filter (\<lambda>r. strftime_w (date r) = n) tbl \<noteq> []"
    by (auto simp: filter_empty_conv)
  then show ?thesis
    by (simp add: weekday_group_def Let_def)
qed

lemma all_weekdays:
  assumes "\<forall>k<7. \<exists>r\<in>set tbl. date r = d + int k"
  shows "map weekday (weekday_group tbl n) = (if n < 7 then [day_name n] else [])"
proof (cases "n < 7")
  case True
  from weekday_reached [OF True, of d] obtain k where k: "k < 7" "strftime_w (d + int k) = n"
    by blast
  with assms obtain r where "r \<in> set tbl" "date r = d + int k" by blast
  with k True show ?thesis
    by (simp add: weekday_group_nonempty)
next
  case False
  have "strftime_w x < 7" for x
    by (simp add: strftime_w_def)
  with False have "filter (\<lambda>r. strftime_w (date r) = n) tbl = []"
    by (auto simp: filter_empty_conv)
  with False show ?thesis
    by (simp add: weekday_group_def)
qed

lemma upt_7: "[0..<7] = [0, 1, 2, 3, 4, 5, 6]"
  by (simp add: upt_rec)

lemma seven_weekday_rows:
  assumes "\<forall>k<7. \<exists>r\<in>set tbl. date r = d + int k"
  shows "map weekday (btc_weekday_avg tbl) = week_names"
  by (simp add: btc_weekday_avg_def upt_7 map_concat all_weekdays [OF assms] day_name_def
      week_names_def)

lemma highest_volume_weekday_idxmax:
  "idxmax (map avg_volume trends) = Inr i \<Longrightarrow> i < length trends
   \<Longrightarrow> highest_volume_weekday trends = Inr (weekday (trends ! i))"
  by (simp add: highest_volume_weekday_def iloc_def)

lemma lowest_volume_weekday_idxmin:
  "idxmin (map avg_volume trends) = Inr i \<Longrightarrow> i < length trends
   \<Longrightarrow> lowest_volume_weekday trends = Inr (weekday (trends ! i))"
  by (simp add: lowest_volume_weekday_def iloc_def)

text \<open>
  C9: when the table holds a row on each of seven consecutive days, the weekday
  aggregation has one row for each of the seven weekday labels, Sunday first. When some
  average volume is not \<open>NULL\<close>, the lookup of the highest (lowest) volume weekday returns
  the weekday of a row whose average volume is the greatest (least) of all, and no row
  before it in the aggregation's order has that same average: under a tie the first row
  wins.
\<close>

theorem weekday_rows_and_tie_break:
  assumes "\<forall>k<7. \<exists>r\<in>set tbl. date r = d + int k"
      and "trends = btc_weekday_avg tbl" and "Some v \<in> set (map avg_volume trends)"
  shows "map weekday trends = week_names
       \<and> (\<exists>i m. highest_volume_weekday trends = Inr (weekday (trends ! i))
              \<and> i < length trends \<and> avg_volume (trends ! i) = Some m
              \<and> (\<forall>w\<in>set trends. \<forall>u. avg_volume w = Some u \<longrightarrow> u \<le> m)
              \<and> (\<forall>n<i. avg_volume (trends ! n) \<noteq> Some m))
       \<and> (\<exists>i m. lowest_volume_weekday trends = Inr (weekday (trends ! i))
              \<and> i < length trends \<and> avg_volume (trends ! i) = Some m
              \<and> (\<forall>w\<in>set trends. \<forall>u. avg_volume w = Some u \<longrightarrow> m \<le> u)
              \<and> (\<forall>n<i. avg_volume (trends ! n) \<noteq> Some m))"
proof (intro conjI)
  show "map weekday trends = week_names"
    using assms(1,2) by (simp add: seven_weekday_rows)
next
  let ?vs = "map avg_volume trends"
  from idxmax_first [OF assms(3)] obtain i m where im: "idxmax ?vs = Inr i" "i < length ?vs"
    "?vs ! i = Some m" "\<forall>v. Some v \<in> set ?vs \<longrightarrow> v \<le> m" "\<forall>n<i. ?vs ! n \<noteq> Some m"
    by blast
  from im(1,2) have "highest_volume_weekday trends = Inr (weekday (trends ! i))"
    by (simp add: highest_volume_weekday_idxmax)
  moreover from im(2) have "i < length trends" by simp
  moreover from im(2,3) have "avg_volume (trends ! i) = Some m" by simp
  moreover from im(4) have "\<forall>w\<in>set trends. \<forall>u. avg_volume w = Some u \<longrightarrow> u \<le> m"
    by force
  moreover from im(2,5) have "\<forall>n<i. avg_volume (trends ! n) \<noteq> Some m" by simp
  ultimately show "\<exists>i m. highest_volume_weekday trends = Inr (weekday (trends ! i))
              \<and> i < length trends \<and> avg_volume (trends ! i) = Some m
              \<and> (\<forall>w\<in>set trends. \<forall>u. avg_volume w = Some u \<longrightarrow> u \<le> m)
              \<and> (\<forall>n<i. avg_volume (trends ! n) \<noteq> Some m)"
    by blast
next
  let ?vs = "map avg_volume trends"
  from idxmin_first [OF assms(3)] obtain i m where im: "idxmin ?vs = Inr i" "i < length ?vs"
    "?vs ! i = Some m" "\<forall>v. Some v \<in> set ?vs \<longrightarrow> m \<le> v" "\<forall>n<i. ?vs ! n \<noteq> Some m"
    by blast
  from im(1,2) have "lowest_volume_weekday trends = Inr (weekday (trends ! i))"
    by (simp add: lowest_volume_weekday_idxmin)
  moreover from im(2) have "i < length trends" by simp
  moreover from im(2,3) have "avg_volume (trends ! i) = Some m" by simp
  moreover from im(4) have "\<forall>w\<in>set trends. \<forall>u. avg_volume w = Some u \<longrightarrow> m \<le> u"
    by force
  moreover from im(2,5) have "\<forall>n<i. avg_volume (trends ! n) \<noteq> Some m" by simp
  ultimately show "\<exists>i m. lowest_volume_weekday trends = Inr (weekday (trends ! i))
              \<and> i < length trends \<and> avg_volume (trends ! i) = Some m
              \<and> (\<forall>w\<in>set trends. \<forall>u. avg_volume w = Some u \<longrightarrow> m \<le> u)
              \<and> (\<forall>n<i. avg_volume (trends ! n) \<noteq> Some m)"
    by blast
qed

lemma week_table_trends:
  "btc_weekday_avg week_table =
     [\<lparr>weekday_num = 0, weekday = ''Sunday'', avg_price = Some 105, avg_volume = Some 4\<rparr>,
      \<lparr>weekday_num = 1, weekday = ''Monday'', avg_price = Some 106, avg_volume = Some 5\<rparr>,
      \<lparr>weekday_num = 2, weekday = ''Tuesday'', avg_price = Some 100, avg_volume = Some 5\<rparr>,
      \<lparr>weekday_num = 3, weekday = ''Wednesday'', avg_price = Some 101, avg_volume = Some 9\<rparr>,
      \<lparr>weekday_num = 4, weekday = ''Thursday'', avg_price = Some 102, avg_volume = Some 5\<rparr>,
      \<lparr>weekday_num = 5, weekday = ''Friday'', avg_price = Some 103, avg_volume = Some 4\<rparr>,
      \<lparr>weekday_num = 6, weekday = ''Saturday'', avg_price = Some 104, avg_volume = Some 9\<rparr>]"
  by (simp add: btc_weekday_avg_def upt_7 weekday_group_def week_table_def strftime_w_def
      sql_avg_def valid_def day_name_def)

theorem weekday_rows_and_tie_break_witness:
  "map date week_table = [19675, 19676, 19677, 19678, 19679, 19680, 19681]
   \<and> map weekday (btc_weekday_avg week_table) = week_names
   \<and> map avg_volume (btc_weekday_avg week_table)
       = [Some 4, Some 5, Some 5, Some 9, Some 5, Some 4, Some 9]
   \<and> highest_volume_weekday (btc_weekday_avg week_table) = Inr ''Wednesday''
   \<and> lowest_volume_weekday (btc_weekday_avg week_table) = Inr ''Sunday''"
proof -
  have dates: "map date week_table = [19675, 19676, 19677, 19678, 19679, 19680, 19681]"
    by (simp add: week_table_def)
  have "\<exists>r\<in>set week_table. date r = 19675 + int k" if "k < 7" for k
  proof -
    from that have "k = 0 \<or> k = 1 \<or> k = 2 \<or> k = 3 \<or> k = 4 \<or> k = 5 \<or> k = 6" by arith
    then show ?thesis by (auto simp: week_table_def)
  qed
  then have h1: "\<forall>k<7. \<exists>r\<in>set week_table. date r = 19675 + int k" by blast
  have h3: "Some 4 \<in> set (map avg_volume (btc_weekday_avg week_table))"
    by (simp add: week_table_trends)
  note t = weekday_rows_and_tie_break [OF h1 refl h3]
  from t have names: "map weekday (btc_weekday_avg week_table) = week_names" by blast
  have vols: "map avg_volume (btc_weekday_avg week_table)
       = [Some 4, Some 5, Some 5, Some 9, Some 5, Some 4, Some 9]"
    by (simp add: week_table_trends)
  have hi: "highest_volume_weekday (btc_weekday_avg week_table) = Inr ''Wednesday''"
    by (simp add: week_table_trends highest_volume_weekday_def idxmax_def iloc_def)
  have lo: "lowest_volume_weekday (btc_weekday_avg week_table) = Inr ''Sunday''"
    by (simp add: week_table_trends lowest_volume_weekday_def idxmin_def iloc_def)
  from dates names vols hi lo show ?thesis by simp
qed

section \<open>Properties of the statistics stage\<close>

lemma coin_metrics_Nil: "coin_metrics [] = Inl IndexError"
  by (simp add: coin_metrics_def iloc_def Let_def)

lemma coin_metrics_Cons: "df \<noteq> [] \<Longrightarrow> \<exists>s. coin_metrics df = Inr s"
  by (cases df) (simp_all add: coin_metrics_def iloc_def Let_def)

lemma coin_metrics_error: "coin_metrics df = Inl e \<Longrightarrow> e = IndexError"
  by (cases df) (simp_all add: coin_metrics_def iloc_def Let_def)

text \<open>
  C4, amended: when the cleaned series of either asset is empty, the statistics stage
  returns no summary: it fails with the \<open>IndexError\<close> of reading the last price by position.
\<close>

theorem analyze_data_empty_frame:
  assumes "btc_df = [] \<or> eth_df = []"
  shows "analyze_data db btc_df eth_df = Inl IndexError"
proof (cases "btc_df = []")
  case True
  then show ?thesis by (simp add: analyze_data_def coin_metrics_Nil)
next
  case False
  with assms have e: "eth_df = []" by simp
  from False obtain s where "coin_metrics btc_df = Inr s"
    using coin_metrics_Cons by blast
  with e show ?thesis by (simp add: analyze_data_def coin_metrics_Nil)
qed

lemma clean_nonpositive_frame: "clean_data nonpositive_frame = []"
  by (simp add: nonpositive_frame_def clean_data_def obs_def isnull_any_def le0_def gt0_def)

text \<open>
  C4, as stated, fails: a frame whose rows all have a price or a volume that is not
  positive is cleaned to the empty frame, and the statistics then fail with \<open>IndexError\<close>,
  raised by the positional read of the last price; it is not an insufficient-data error.
\<close>

theorem analyze_data_empty_not_data_quality:
  "clean_data nonpositive_frame = []
   \<and> analyze_data stored_db (clean_data nonpositive_frame) (clean_data complete_frame)
       = Inl IndexError
   \<and> analyze_data stored_db (clean_data nonpositive_frame) (clean_data complete_frame)
       \<noteq> Inl DataQualityError"
  by (simp add: clean_nonpositive_frame analyze_data_def coin_metrics_Nil)

theorem analyze_data_empty_frame_witness:
  "clean_data nonpositive_frame = []
   \<and> analyze_data stored_db (clean_data complete_frame) (clean_data nonpositive_frame)
       = Inl IndexError"
proof -
  have h: "clean_data complete_frame = [] \<or> clean_data nonpositive_frame = []"
    by (simp add: clean_nonpositive_frame)
  from analyze_data_empty_frame [OF h, of stored_db] show ?thesis
    by (simp add: clean_nonpositive_frame)
qed

lemma weekday_group_row:
  assumes "w \<in> set (weekday_group tbl n)"
  shows "weekday_num w = n
       \<and> avg_price w = sql_avg (map price (filter (\<lambda>r. strftime_w (date r) = n) tbl))
       \<and> avg_volume w = sql_avg (map volume (filter (\<lambda>r. strftime_w (date r) = n) tbl))"
  using assms by (auto simp: weekday_group_def Let_def split: if_splits)

lemma btc_weekday_avg_row:
  assumes "w \<in> set (btc_weekday_avg tbl)"
  shows "avg_price w
           = sql_avg (map price (filter (\<lambda>r. strftime_w (date r) = weekday_num w) tbl))
       \<and> avg_volume w
           = sql_avg (map volume (filter (\<lambda>r. strftime_w (date r) = weekday_num w) tbl))"
proof -
  from assms obtain n where "w \<in> set (weekday_group tbl n)"
    by (auto simp: btc_weekday_avg_def)
  from weekday_group_row [OF this] show ?thesis by simp
qed

text \<open>
  C10: whatever the two cleaned frames are (as long as the statistics over them succeed,
  that is, both are not empty), the weekday aggregation of the analysis is the weekday
  query over the stored table \<open>bitcoin\<close>: every row of it averages the prices and the volumes
  of all stored rows of that weekday, non-positive ones included, with \<open>NULL\<close>s left out as
  \<open>AVG\<close> does.
\<close>

theorem weekday_trends_from_table:
  assumes "db ''bitcoin'' = Some tbl" and "btc_df \<noteq> []" and "eth_df \<noteq> []"
  shows "\<exists>a. analyze_data db btc_df eth_df = Inr a
           \<and> btc_weekday_trends a = btc_weekday_avg tbl
           \<and> (\<forall>w\<in>set (btc_weekday_trends a).
                 avg_price w
                   = sql_avg (map price (filter (\<lambda>r. strftime_w (date r) = weekday_num w) tbl))
               \<and> avg_volume w
                   = sql_avg (map volume (filter (\<lambda>r. strftime_w (date r) = weekday_num w) tbl)))"
proof -
  from assms(2) obtain b where b: "coin_metrics btc_df = Inr b"
    using coin_metrics_Cons by blast
  from assms(3) obtain t where t: "coin_metrics eth_df = Inr t"
    using coin_metrics_Cons by blast
  let ?a = "\<lparr>Bitcoin = b, Ethereum = t, correlation = corr (merge_on_date btc_df eth_df),
             btc_weekday_trends = btc_weekday_avg tbl\<rparr>"
  have "analyze_data db btc_df eth_df = Inr ?a"
    using assms(1) b t by (simp add: analyze_data_def)
  moreover have "btc_weekday_trends ?a = btc_weekday_avg tbl" by simp
  ultimately show ?thesis
    using btc_weekday_avg_row [of _ tbl] by (intro exI [of _ ?a]) simp
qed

lemma clean_stored_bitcoin:
  "clean_data stored_bitcoin = [obs 0 (Some 10) (Some 5), obs 4 (Some 20) (Some 8)]"
  by (simp add: stored_bitcoin_def clean_data_def obs_def isnull_any_def interpolate_def
      interpolate_linear_def le0_def gt0_def)

lemma stored_bitcoin_trends:
  "btc_weekday_avg stored_bitcoin =
     [\<lparr>weekday_num = 0, weekday = ''Sunday'', avg_price = None, avg_volume = Some 0\<rparr>,
      \<lparr>weekday_num = 1, weekday = ''Monday'', avg_price = Some 20, avg_volume = Some 8\<rparr>,
      \<lparr>weekday_num = 4, weekday = ''Thursday'', avg_price = Some 3, avg_volume = Some (11 / 2)\<rparr>]"
  by (simp add: btc_weekday_avg_def upt_7 weekday_group_def stored_bitcoin_def obs_def
      strftime_w_def sql_avg_def valid_def day_name_def)

theorem weekday_trends_from_table_witness:
  "stored_db ''bitcoin'' = Some stored_bitcoin
   \<and> clean_data stored_bitcoin = [obs 0 (Some 10) (Some 5), obs 4 (Some 20) (Some 8)]
   \<and> (\<exists>a. analyze_data stored_db (clean_data stored_bitcoin) (clean_data complete_frame) = Inr a
          \<and> btc_weekday_trends a =
             [\<lparr>weekday_num = 0, weekday = ''Sunday'', avg_price = None, avg_volume = Some 0\<rparr>,
              \<lparr>weekday_num = 1, weekday = ''Monday'', avg_price = Some 20, avg_volume = Some 8\<rparr>,
              \<lparr>weekday_num = 4, weekday = ''Thursday'', avg_price = Some 3,
                avg_volume = Some (11 / 2)\<rparr>])"
proof -
  have h1: "stored_db ''bitcoin'' = Some stored_bitcoin"
    by (simp add: stored_db_def)
  have h2: "clean_data stored_bitcoin \<noteq> []"
    by (simp add: clean_stored_bitcoin)
  have h3: "clean_data complete_frame \<noteq> []"
    by (simp add: complete_frame_def clean_data_def obs_def isnull_any_def le0_def gt0_def)
  from weekday_trends_from_table [where db = stored_db, OF h1 h2 h3] obtain a where
    "analyze_data stored_db (clean_data stored_bitcoin) (clean_data complete_frame) = Inr a"
    "btc_weekday_trends a = btc_weekday_avg stored_bitcoin"
    by blast
  with h1 show ?thesis
    by (simp add: clean_stored_bitcoin stored_bitcoin_trends)
qed

end
